theory Spec2Isabelle
  imports Main "HOL-Library.Sublist" "HOL-Library.Char_ord" "HOL-Library.List_Lexorder"
    "HOL-Library.Option_ord" "HOL-Library.Multiset"
begin

text \<open>
  A model of the todo service: the record store of \<open>database.ts\<close> over a list of table
  rows, the service of \<open>todo-service.ts\<close> on top of it, and the library functions
  both call (string methods, \<open>JSON.stringify\<close> and \<open>JSON.parse\<close> on tag lists,
  SQLite's \<open>LIKE\<close> and \<open>ORDER BY\<close>). Every operation takes the database and returns
  what the method returns, or the error it throws, with the database after the call. The
  clock and the id generator are arguments: \<open>now\<close> is the ISO text of the current time,
  \<open>newId\<close> the fresh id.
\<close>

section \<open>JavaScript strings\<close>

text \<open>
  A JavaScript string is modelled as a \<open>string\<close>; a \<open>char\<close> stands for the code point
  U+0000 .. U+00FF with the same number. \<open>trim\<close>, \<open>toLowerCase\<close> and \<open>includes\<close> are the
  methods of \<open>String.prototype\<close> on that range.
\<close>

definition charCode :: "char \<Rightarrow> nat" where
  "charCode c = of_char c"

definition isWhiteSpace :: "char \<Rightarrow> bool" where
  "isWhiteSpace c = (charCode c = 9 \<or> charCode c = 10 \<or> charCode c = 11 \<or> charCode c = 12 \<or> charCode c = 13
     \<or> charCode c = 32 \<or> charCode c = 160)"

definition trim :: "string \<Rightarrow> string" where
  "trim s = rev (dropWhile isWhiteSpace (rev (dropWhile isWhiteSpace s)))"

definition lowerChar :: "char \<Rightarrow> char" where
  "lowerChar c =
     (if (65 \<le> charCode c \<and> charCode c \<le> 90) \<or> (192 \<le> charCode c \<and> charCode c \<le> 222 \<and> charCode c \<noteq> 215)
      then char_of (charCode c + 32) else c)"

definition toLowerCase :: "string \<Rightarrow> string" where
  "toLowerCase s = map lowerChar s"

fun includes_str :: "string \<Rightarrow> string \<Rightarrow> bool" where
  "includes_str [] n = (n = [])"
| "includes_str (c # cs) n = (prefix n (c # cs) \<or> includes_str cs n)"

section \<open>JSON text of a tag list\<close>

text \<open>
  \<open>JSON.stringify\<close> on an array of strings: the elements quoted, joined by commas, in
  brackets. Quoting escapes the double quote, the backslash and the control characters.
\<close>

definition hexDigit :: "nat \<Rightarrow> char" where
  "hexDigit k = char_of (if k < 10 then 48 + k else 87 + k)"

definition quoteChar :: "char \<Rightarrow> string" where
  "quoteChar c =
     (if charCode c = 8 then [CHR 0x5C, CHR ''b'']
      else if charCode c = 9 then [CHR 0x5C, CHR ''t'']
      else if charCode c = 10 then [CHR 0x5C, CHR ''n'']
      else if charCode c = 12 then [CHR 0x5C, CHR ''f'']
      else if charCode c = 13 then [CHR 0x5C, CHR ''r'']
      else if charCode c = 34 then [CHR 0x5C, CHR 0x22]
      else if charCode c = 92 then [CHR 0x5C, CHR 0x5C]
      else if charCode c < 32 then
        [CHR 0x5C, CHR ''u'', CHR ''0'', CHR ''0'', hexDigit (charCode c div 16), hexDigit (charCode c mod 16)]
      else [c])"

definition quoteJSONString :: "string \<Rightarrow> string" where
  "quoteJSONString s = CHR 0x22 # concat (map quoteChar s) @ [CHR 0x22]"

fun joinComma :: "string list \<Rightarrow> string" where
  "joinComma [] = []"
| "joinComma [x] = x"
| "joinComma (x # y # ys) = x @ CHR '','' # joinComma (y # ys)"

definition JSON_stringify :: "string list \<Rightarrow> string" where
  "JSON_stringify ts = CHR ''['' # joinComma (map quoteJSONString ts) @ [CHR '']'']"

text \<open>
  \<open>JSON.parse\<close> on the texts the store writes: an array of string literals without
  insignificant white space, with every escape of the JSON grammar. On any other text
  (one that \<open>JSON.parse\<close> rejects, one that is not an array of strings, one with white
  space between the tokens or a code point past U+00FF) the model answers \<open>None\<close>.
\<close>

definition hexVal :: "char \<Rightarrow> nat option" where
  "hexVal c =
     (if 48 \<le> charCode c \<and> charCode c \<le> 57 then Some (charCode c - 48)
      else if 97 \<le> charCode c \<and> charCode c \<le> 102 then Some (charCode c - 87)
      else if 65 \<le> charCode c \<and> charCode c \<le> 70 then Some (charCode c - 55)
      else None)"

definition unescape :: "char \<Rightarrow> char option" where
  "unescape e =
     (if e = CHR 0x22 then Some (CHR 0x22)
      else if e = CHR 0x5C then Some (CHR 0x5C)
      else if e = CHR ''/'' then Some (CHR ''/'')
      else if e = CHR ''b'' then Some (CHR 0x08)
      else if e = CHR ''f'' then Some (CHR 0x0C)
      else if e = CHR ''n'' then Some (CHR 0x0A)
      else if e = CHR ''r'' then Some (CHR 0x0D)
      else if e = CHR ''t'' then Some (CHR 0x09)
      else None)"

definition consChar :: "char \<Rightarrow> (string \<times> string) option \<Rightarrow> (string \<times> string) option" where
  "consChar c r = (case r of None \<Rightarrow> None | Some (s, t) \<Rightarrow> Some (c # s, t))"

definition decodeEscape :: "string \<Rightarrow> (char \<times> string) option" where
  "decodeEscape cs =
     (case cs of
        [] \<Rightarrow> None
      | e # r \<Rightarrow>
          if e = CHR ''u'' then
            (case r of
               h3 # h2 # h1 # h0 # r' \<Rightarrow>
                 (case (hexVal h3, hexVal h2, hexVal h1, hexVal h0) of
                    (Some x3, Some x2, Some x1, Some x0) \<Rightarrow>
                      if ((x3 * 16 + x2) * 16 + x1) * 16 + x0 < 256
                      then Some (char_of (((x3 * 16 + x2) * 16 + x1) * 16 + x0), r')
                      else None
                  | _ \<Rightarrow> None)
             | _ \<Rightarrow> None)
          else (case unescape e of None \<Rightarrow> None | Some x \<Rightarrow> Some (x, r)))"

lemma decodeEscape_shorter: "decodeEscape cs = Some (x, r) \<Longrightarrow> length r < length cs"
  by (auto simp: decodeEscape_def split: list.splits if_splits option.splits)

function parseChars :: "string \<Rightarrow> (string \<times> string) option" where
  "parseChars [] = None"
| "parseChars (c # cs) =
     (if c = CHR 0x22 then Some ([], cs)
      else if c = CHR 0x5C then
        (case decodeEscape cs of
           None \<Rightarrow> None
         | Some (x, r) \<Rightarrow> consChar x (parseChars r))
      else if charCode c < 32 then None
      else consChar c (parseChars cs))"
  by pat_completeness auto
termination
  by (relation "measure length") (auto dest: decodeEscape_shorter)

lemma parseChars_shorter: "parseChars s = Some (x, r) \<Longrightarrow> length r < length s"
proof (induction s arbitrary: x r rule: parseChars.induct)
  case 1
  then show ?case by simp
next
  case (2 c cs)
  then show ?case
    by (fastforce simp: consChar_def dest: decodeEscape_shorter
        split: if_splits option.splits prod.splits)
qed

function parseItems :: "string \<Rightarrow> string list option" where
  "parseItems s =
     (case s of
        [] \<Rightarrow> None
      | q # cs \<Rightarrow>
          if q = CHR 0x22 then
            (case parseChars cs of
               None \<Rightarrow> None
             | Some (str, rest) \<Rightarrow>
                 (case rest of
                    [] \<Rightarrow> None
                  | x # rest' \<Rightarrow>
                      if x = CHR '']'' \<and> rest' = [] then Some [str]
                      else if x = CHR '','' then map_option ((#) str) (parseItems rest')
                      else None))
          else None)"
  by pat_completeness auto
termination
  by (relation "measure length") (auto dest: parseChars_shorter)

definition JSON_parse :: "string \<Rightarrow> string list option" where
  "JSON_parse s =
     (case s of
        [] \<Rightarrow> None
      | b # r \<Rightarrow> if b = CHR ''['' then (if r = [CHR '']''] then Some [] else parseItems r) else None)"

section \<open>SQLite's LIKE\<close>

text \<open>
  \<open>text LIKE pattern\<close> as SQLite evaluates it with no \<open>ESCAPE\<close> clause: \<open>%\<close> matches any
  run of characters, \<open>_\<close> any one character, every other character itself, upper and
  lower case of the ASCII letters alike.
\<close>

definition foldCase :: "char \<Rightarrow> char" where
  "foldCase c = (if 65 \<le> charCode c \<and> charCode c \<le> 90 then char_of (charCode c + 32) else c)"

fun like :: "string \<Rightarrow> string \<Rightarrow> bool" where
  "like [] s = (s = [])"
| "like (p # ps) [] = (p = CHR ''%'' \<and> like ps [])"
| "like (p # ps) (c # cs) =
     (if p = CHR ''%'' then like ps (c # cs) \<or> like (p # ps) cs
      else (p = CHR ''_'' \<or> foldCase p = foldCase c) \<and> like ps cs)"

text \<open>
  SQLite reads the pattern and the text up to the first U+0000.
\<close>

definition cString :: "string \<Rightarrow> string" where
  "cString s = takeWhile (\<lambda>c. c \<noteq> CHR 0x00) s"

definition sqlLike :: "string \<Rightarrow> string \<Rightarrow> bool" where
  "sqlLike pattern s = like (cString pattern) (cString s)"

section \<open>Data model (types.ts)\<close>

text \<open>
  A property of a JavaScript object holds a value or \<open>undefined\<close> (\<open>'a option\<close>,
  \<open>None\<close> for \<open>undefined\<close>); \<open>description\<close>, \<open>priority\<close> and \<open>dueDate\<close> of a
  \<open>Todo\<close> can also hold the \<open>null\<close> of a \<open>NULL\<close> column (\<open>'a js\<close>). In an
  \<open>UpdateTodoInput\<close> a key can be absent, present with the value \<open>undefined\<close>, or present
  with a value (\<open>'a upd\<close>): object spread tells the first two apart.
\<close>

datatype 'a js = Undefined | Null | Val 'a

datatype 'a upd = Absent | Undef | Given 'a

record Todo =
  todo_id :: string
  title :: "string option"
  description :: "string js"
  completed :: "bool option"
  priority :: "string js"
  dueDate :: "string js"
  tags :: "string list option"
  createdAt :: string
  updatedAt :: string

record CreateTodoInput =
  ci_title :: "string option"
  ci_description :: "string option"
  ci_priority :: "string option"
  ci_dueDate :: "string option"
  ci_tags :: "string list option"

record UpdateTodoInput =
  ui_title :: "string upd"
  ui_description :: "string upd"
  ui_completed :: "bool upd"
  ui_priority :: "string upd"
  ui_dueDate :: "string upd"
  ui_tags :: "string list upd"

record TodoFilter =
  f_completed :: "bool option"
  f_priority :: "string option"
  f_tag :: "string option"
  f_dueBefore :: "string option"
  f_dueAfter :: "string option"

section \<open>The record store (database.ts)\<close>

text \<open>
  A row of the table \<open>todos\<close>, column by column; the database is the list of its rows in
  insertion order. \<open>description\<close>, \<open>priority\<close>, \<open>due_date\<close> and \<open>tags\<close> are
  nullable (\<open>None\<close> is \<open>NULL\<close>); \<open>title\<close> is \<open>NOT NULL\<close>, and the other columns only
  ever receive text (or 0 and 1 for \<open>completed\<close>).
\<close>

record Row =
  row_id :: string
  row_title :: string
  row_description :: "string option"
  row_completed :: int
  row_priority :: "string option"
  row_due_date :: "string option"
  row_tags :: "string option"
  row_created_at :: string
  row_updated_at :: string

text \<open>
  \<open>Error m\<close> is \<open>throw new Error(m)\<close>. \<open>SqliteError m\<close> is the error of a statement that
  violates a constraint of the table, \<open>JSONSyntaxError\<close> a failed \<open>JSON.parse\<close>,
  \<open>JSTypeError\<close> a method called on \<open>undefined\<close>.
\<close>

datatype error = Error string | SqliteError string | JSONSyntaxError | JSTypeError

definition rowToTodo :: "Row \<Rightarrow> error + Todo" where
  "rowToTodo row =
     (case JSON_parse (case row_tags row of
                         None \<Rightarrow> ''[]''
                       | Some text \<Rightarrow> if text = [] then ''[]'' else text) of
        None \<Rightarrow> Inl JSONSyntaxError
      | Some ts \<Rightarrow>
          Inr \<lparr>todo_id = row_id row,
               title = Some (row_title row),
               description = (case row_description row of None \<Rightarrow> Null | Some d \<Rightarrow> Val d),
               completed = Some (row_completed row \<noteq> 0),
               priority = (case row_priority row of None \<Rightarrow> Null | Some p \<Rightarrow> Val p),
               dueDate = (case row_due_date row of None \<Rightarrow> Null | Some d \<Rightarrow> Val d),
               tags = Some ts,
               createdAt = row_created_at row,
               updatedAt = row_updated_at row\<rparr>)"

fun rowsToTodos :: "Row list \<Rightarrow> error + Todo list" where
  "rowsToTodos [] = Inr []"
| "rowsToTodos (r # rs) =
     (case rowToTodo r of
        Inl e \<Rightarrow> Inl e
      | Inr t \<Rightarrow> (case rowsToTodos rs of Inl e \<Rightarrow> Inl e | Inr ts \<Rightarrow> Inr (t # ts)))"

text \<open>\<open>value || null\<close> as bound to a nullable column.\<close>

definition orNull :: "string js \<Rightarrow> string option" where
  "orNull v = (case v of Val s \<Rightarrow> if s = [] then None else Some s | _ \<Rightarrow> None)"

definition optToJs :: "'a option \<Rightarrow> 'a js" where
  "optToJs v = (case v of None \<Rightarrow> Undefined | Some x \<Rightarrow> Val x)"

text \<open>
  The values \<open>stmt.run\<close> binds for a \<open>Todo\<close>: \<open>title\<close>, \<open>priority\<close> and
  \<open>JSON.stringify(tags)\<close> are bound as they are, and \<open>undefined\<close> (as \<open>null\<close>) is
  bound as \<open>NULL\<close>. \<open>JSON.stringify(undefined)\<close> is \<open>undefined\<close>. A \<open>NULL\<close> title
  violates \<open>NOT NULL\<close> and the statement fails.
\<close>

definition bindTodo :: "Todo \<Rightarrow> error + Row" where
  "bindTodo t =
     (case title t of
        None \<Rightarrow> Inl (SqliteError ''NOT NULL constraint failed: todos.title'')
      | Some ti \<Rightarrow>
          Inr \<lparr>row_id = todo_id t,
               row_title = ti,
               row_description = orNull (description t),
               row_completed = (if completed t = Some True then 1 else 0),
               row_priority = (case priority t of Val p \<Rightarrow> Some p | _ \<Rightarrow> None),
               row_due_date = orNull (dueDate t),
               row_tags = map_option JSON_stringify (tags t),
               row_created_at = createdAt t,
               row_updated_at = updatedAt t\<rparr>)"

text \<open>
  \<open>createTodo\<close>: \<open>newId\<close> is the result of \<open>crypto.randomUUID()\<close>, \<open>now\<close> that of
  \<open>new Date().toISOString()\<close>.
\<close>

definition db_createTodo ::
  "CreateTodoInput \<Rightarrow> string \<Rightarrow> string \<Rightarrow> Row list \<Rightarrow> (error + Todo) \<times> Row list" where
  "db_createTodo input newId now db =
     (let todo = \<lparr>todo_id = newId,
                  title = ci_title input,
                  description = optToJs (ci_description input),
                  completed = Some False,
                  priority = Val (case ci_priority input of
                                    None \<Rightarrow> ''medium''
                                  | Some p \<Rightarrow> if p = [] then ''medium'' else p),
                  dueDate = optToJs (ci_dueDate input),
                  tags = Some (case ci_tags input of None \<Rightarrow> [] | Some ts \<Rightarrow> ts),
                  createdAt = now,
                  updatedAt = now\<rparr>
      in case bindTodo todo of
           Inl e \<Rightarrow> (Inl e, db)
         | Inr row \<Rightarrow>
             if list_ex (\<lambda>r. row_id r = newId) db
             then (Inl (SqliteError ''UNIQUE constraint failed: todos.id''), db)
             else (Inr todo, db @ [row]))"

definition db_getTodoById :: "string \<Rightarrow> Row list \<Rightarrow> error + Todo option" where
  "db_getTodoById i db =
     (case find (\<lambda>r. row_id r = i) db of
        None \<Rightarrow> Inr None
      | Some row \<Rightarrow> (case rowToTodo row of Inl e \<Rightarrow> Inl e | Inr t \<Rightarrow> Inr (Some t)))"

definition whereClause :: "TodoFilter option \<Rightarrow> Row \<Rightarrow> bool" where
  "whereClause flt row =
     (case flt of
        None \<Rightarrow> True
      | Some f \<Rightarrow>
          (case f_completed f of
             None \<Rightarrow> True
           | Some v \<Rightarrow> row_completed row = (if v then 1 else 0))
          \<and> (case f_priority f of
               None \<Rightarrow> True
             | Some p \<Rightarrow> p = [] \<or> row_priority row = Some p)
          \<and> (case f_dueBefore f of
               None \<Rightarrow> True
             | Some b \<Rightarrow> b = [] \<or> (case row_due_date row of None \<Rightarrow> False | Some d \<Rightarrow> d \<le> b))
          \<and> (case f_dueAfter f of
               None \<Rightarrow> True
             | Some a \<Rightarrow> a = [] \<or> (case row_due_date row of None \<Rightarrow> False | Some d \<Rightarrow> a \<le> d))
          \<and> (case f_tag f of
               None \<Rightarrow> True
             | Some t \<Rightarrow>
                 t = [] \<or> (case row_tags row of
                             None \<Rightarrow> False
                           | Some text \<Rightarrow>
                               sqlLike ([CHR ''%'', CHR 0x22] @ t @ [CHR 0x22, CHR ''%'']) text)))"

text \<open>
  \<open>ORDER BY created_at DESC\<close>: the rows sorted by the key, greatest first. SQL leaves
  the order of rows with equal keys open, and SQLite's depends on the plan it chooses for
  the query; the model returns them latest first. Nothing below depends on that order.
\<close>

definition db_getAllTodos :: "TodoFilter option \<Rightarrow> Row list \<Rightarrow> error + Todo list" where
  "db_getAllTodos flt db = rowsToTodos (rev (sort_key row_created_at (filter (whereClause flt) db)))"

text \<open>
  Object spread \<open>{...existing, ...input}\<close>, one property at a time: an absent key keeps
  the existing value, a present key overrides it, also when its value is \<open>undefined\<close>.
\<close>

definition spreadOpt :: "'a option \<Rightarrow> 'a upd \<Rightarrow> 'a option" where
  "spreadOpt old u = (case u of Absent \<Rightarrow> old | Undef \<Rightarrow> None | Given v \<Rightarrow> Some v)"

definition spreadJs :: "'a js \<Rightarrow> 'a upd \<Rightarrow> 'a js" where
  "spreadJs old u = (case u of Absent \<Rightarrow> old | Undef \<Rightarrow> Undefined | Given v \<Rightarrow> Val v)"

definition runUpdate :: "string \<Rightarrow> Row \<Rightarrow> Row list \<Rightarrow> Row list" where
  "runUpdate i b db =
     map (\<lambda>r. if row_id r = i
               then r\<lparr>row_title := row_title b,
                      row_description := row_description b,
                      row_completed := row_completed b,
                      row_priority := row_priority b,
                      row_due_date := row_due_date b,
                      row_tags := row_tags b,
                      row_updated_at := row_updated_at b\<rparr>
               else r) db"

definition db_updateTodo ::
  "string \<Rightarrow> UpdateTodoInput \<Rightarrow> string \<Rightarrow> Row list \<Rightarrow> (error + Todo option) \<times> Row list" where
  "db_updateTodo i input now db =
     (case db_getTodoById i db of
        Inl e \<Rightarrow> (Inl e, db)
      | Inr None \<Rightarrow> (Inr None, db)
      | Inr (Some existing) \<Rightarrow>
          (let updated = \<lparr>todo_id = todo_id existing,
                          title = spreadOpt (title existing) (ui_title input),
                          description = spreadJs (description existing) (ui_description input),
                          completed = spreadOpt (completed existing) (ui_completed input),
                          priority = spreadJs (priority existing) (ui_priority input),
                          dueDate = spreadJs (dueDate existing) (ui_dueDate input),
                          tags = spreadOpt (tags existing) (ui_tags input),
                          createdAt = createdAt existing,
                          updatedAt = now\<rparr>
           in case bindTodo updated of
                Inl e \<Rightarrow> (Inl e, db)
              | Inr b \<Rightarrow> (Inr (Some updated), runUpdate i b db)))"

definition db_deleteTodo :: "string \<Rightarrow> Row list \<Rightarrow> bool \<times> Row list" where
  "db_deleteTodo i db = (list_ex (\<lambda>r. row_id r = i) db, filter (\<lambda>r. row_id r \<noteq> i) db)"

definition noFilter :: TodoFilter where
  "noFilter = \<lparr>f_completed = None, f_priority = None, f_tag = None,
               f_dueBefore = None, f_dueAfter = None\<rparr>"

definition db_getCompletedTodos :: "Row list \<Rightarrow> error + Todo list" where
  "db_getCompletedTodos db = db_getAllTodos (Some (noFilter\<lparr>f_completed := Some True\<rparr>)) db"

definition db_getPendingTodos :: "Row list \<Rightarrow> error + Todo list" where
  "db_getPendingTodos db = db_getAllTodos (Some (noFilter\<lparr>f_completed := Some False\<rparr>)) db"

definition db_getTodosByPriority :: "string \<Rightarrow> Row list \<Rightarrow> error + Todo list" where
  "db_getTodosByPriority p db = db_getAllTodos (Some (noFilter\<lparr>f_priority := Some p\<rparr>)) db"

definition db_getTodosByTag :: "string \<Rightarrow> Row list \<Rightarrow> error + Todo list" where
  "db_getTodosByTag t db = db_getAllTodos (Some (noFilter\<lparr>f_tag := Some t\<rparr>)) db"

text \<open>
  \<open>WHERE completed = 0 AND due_date IS NOT NULL AND due_date < ? ORDER BY due_date ASC\<close>;
  the comparison is SQLite's comparison of two texts.
\<close>

definition overdueRow :: "string \<Rightarrow> Row \<Rightarrow> bool" where
  "overdueRow now r =
     (row_completed r = 0 \<and> (case row_due_date r of None \<Rightarrow> False | Some d \<Rightarrow> d < now))"

definition db_getOverdueTodos :: "string \<Rightarrow> Row list \<Rightarrow> error + Todo list" where
  "db_getOverdueTodos now db = rowsToTodos (sort_key row_due_date (filter (overdueRow now) db))"

text \<open>
  \<open>getAllTags\<close>: the distinct \<open>tags\<close> texts that are not \<open>NULL\<close> and not \<open>[]\<close>, each
  parsed (a text that does not parse is skipped), their elements added to a \<open>Set\<close>, the set's elements sorted.
\<close>

definition setAdd :: "'a \<Rightarrow> 'a list \<Rightarrow> 'a list" where
  "setAdd x s = (if x \<in> set s then s else s @ [x])"

definition db_getAllTags :: "Row list \<Rightarrow> string list" where
  "db_getAllTags db =
     (let rows = remdups (filter (\<lambda>text. text \<noteq> ''[]'') (List.map_filter row_tags db));
          allTags = fold (\<lambda>text acc.
                      case JSON_parse (if text = [] then ''[]'' else text) of
                        None \<Rightarrow> acc
                      | Some ts \<Rightarrow> fold setAdd ts acc) rows []
      in sort allTags)"

section \<open>The service (todo-service.ts)\<close>

text \<open>
  \<open>validDate d\<close> stands for \<open>!isNaN(new Date(d).getTime())\<close>, the runtime's date parser.
\<close>

definition validPriority :: "string \<Rightarrow> bool" where
  "validPriority p = (p = ''low'' \<or> p = ''medium'' \<or> p = ''high'')"

definition cleanTags :: "string list \<Rightarrow> string list" where
  "cleanTags ts = map trim (filter (\<lambda>tag. trim tag \<noteq> []) ts)"

definition svc_createTodo ::
  "(string \<Rightarrow> bool) \<Rightarrow> CreateTodoInput \<Rightarrow> string \<Rightarrow> string \<Rightarrow> Row list
     \<Rightarrow> (error + Todo) \<times> Row list" where
  "svc_createTodo validDate input newId now db =
     (case ci_title input of
        None \<Rightarrow> (Inl (Error ''Todo title is required''), db)
      | Some t \<Rightarrow>
          if trim t = [] then (Inl (Error ''Todo title is required''), db)
          else if (case ci_dueDate input of None \<Rightarrow> False | Some d \<Rightarrow> d \<noteq> [] \<and> \<not> validDate d)
            then (Inl (Error ''Invalid due date format''), db)
          else if (case ci_priority input of None \<Rightarrow> False | Some p \<Rightarrow> p \<noteq> [] \<and> \<not> validPriority p)
            then (Inl (Error ''Priority must be low, medium, or high''), db)
          else db_createTodo
                 (input\<lparr>ci_title := Some (trim t),
                        ci_description := map_option trim (ci_description input),
                        ci_tags := Some (case ci_tags input of None \<Rightarrow> [] | Some ts \<Rightarrow> cleanTags ts)\<rparr>)
                 newId now db)"

definition notFound :: "string \<Rightarrow> error" where
  "notFound i = Error (''Todo with ID '' @ i @ '' not found'')"

definition svc_getTodoById :: "string \<Rightarrow> Row list \<Rightarrow> error + Todo option" where
  "svc_getTodoById i db =
     (if trim i = [] then Inl (Error ''Todo ID is required'') else db_getTodoById i db)"

definition svc_getAllTodos :: "TodoFilter option \<Rightarrow> Row list \<Rightarrow> error + Todo list" where
  "svc_getAllTodos flt db = db_getAllTodos flt db"

definition normalizeUpdate :: "UpdateTodoInput \<Rightarrow> UpdateTodoInput" where
  "normalizeUpdate input =
     input\<lparr>ui_title := (case ui_title input of
                          Given t \<Rightarrow> if t = [] then Given t else Given (trim t)
                        | u \<Rightarrow> u),
           ui_description := (case ui_description input of Given d \<Rightarrow> Given (trim d) | u \<Rightarrow> u),
           ui_tags := (case ui_tags input of Given ts \<Rightarrow> Given (cleanTags ts) | u \<Rightarrow> u)\<rparr>"

definition svc_updateTodo ::
  "(string \<Rightarrow> bool) \<Rightarrow> string \<Rightarrow> UpdateTodoInput \<Rightarrow> string \<Rightarrow> Row list
     \<Rightarrow> (error + Todo) \<times> Row list" where
  "svc_updateTodo validDate i input now db =
     (if trim i = [] then (Inl (Error ''Todo ID is required''), db)
      else case db_getTodoById i db of
        Inl e \<Rightarrow> (Inl e, db)
      | Inr None \<Rightarrow> (Inl (notFound i), db)
      | Inr (Some existing) \<Rightarrow>
          if (case ui_title input of Given t \<Rightarrow> trim t = [] | _ \<Rightarrow> False)
            then (Inl (Error ''Todo title cannot be empty''), db)
          else if (case ui_dueDate input of Given d \<Rightarrow> d \<noteq> [] \<and> \<not> validDate d | _ \<Rightarrow> False)
            then (Inl (Error ''Invalid due date format''), db)
          else if (case ui_priority input of Given p \<Rightarrow> p \<noteq> [] \<and> \<not> validPriority p | _ \<Rightarrow> False)
            then (Inl (Error ''Priority must be low, medium, or high''), db)
          else (case db_updateTodo i (normalizeUpdate input) now db of
                  (Inl e, db') \<Rightarrow> (Inl e, db')
                | (Inr None, db') \<Rightarrow> (Inl (Error (''Failed to update todo with ID '' @ i)), db')
                | (Inr (Some updated), db') \<Rightarrow> (Inr updated, db')))"

definition svc_deleteTodo :: "string \<Rightarrow> Row list \<Rightarrow> (error + bool) \<times> Row list" where
  "svc_deleteTodo i db =
     (if trim i = [] then (Inl (Error ''Todo ID is required''), db)
      else case db_getTodoById i db of
        Inl e \<Rightarrow> (Inl e, db)
      | Inr None \<Rightarrow> (Inl (notFound i), db)
      | Inr (Some existing) \<Rightarrow> (case db_deleteTodo i db of (b, db') \<Rightarrow> (Inr b, db')))"

definition noUpdate :: UpdateTodoInput where
  "noUpdate = \<lparr>ui_title = Absent, ui_description = Absent, ui_completed = Absent,
               ui_priority = Absent, ui_dueDate = Absent, ui_tags = Absent\<rparr>"

definition svc_completeTodo ::
  "(string \<Rightarrow> bool) \<Rightarrow> string \<Rightarrow> string \<Rightarrow> Row list \<Rightarrow> (error + Todo) \<times> Row list" where
  "svc_completeTodo validDate i now db =
     svc_updateTodo validDate i (noUpdate\<lparr>ui_completed := Given True\<rparr>) now db"

definition svc_getTodosByTag :: "string \<Rightarrow> Row list \<Rightarrow> error + Todo list" where
  "svc_getTodosByTag tag db =
     (if trim tag = [] then Inl (Error ''Tag is required'') else db_getTodosByTag (trim tag) db)"

definition svc_getOverdueTodos :: "string \<Rightarrow> Row list \<Rightarrow> error + Todo list" where
  "svc_getOverdueTodos now db = db_getOverdueTodos now db"

definition svc_getAllTags :: "Row list \<Rightarrow> string list" where
  "svc_getAllTags db = db_getAllTags db"

text \<open>
  \<open>getStats\<close>. A JavaScript number is an integer here, or \<open>NaN\<close>; \<open>byPriority\<close> is the
  object the \<open>reduce\<close> builds, a finite map from keys to numbers. \<open>acc[k]++\<close> on a key the
  object lacks stores \<open>NaN\<close>.
\<close>

datatype jsnum = Num int | NaN

record Stats =
  s_total :: int
  s_completed :: int
  s_pending :: int
  s_overdue :: int
  s_byPriority :: "string \<Rightarrow> jsnum option"

definition increment :: "(string \<Rightarrow> jsnum option) \<Rightarrow> string \<Rightarrow> (string \<Rightarrow> jsnum option)" where
  "increment acc k = acc(k \<mapsto> (case acc k of Some (Num n) \<Rightarrow> Num (n + 1) | _ \<Rightarrow> NaN))"

definition priorityKey :: "Todo \<Rightarrow> string" where
  "priorityKey todo =
     (case priority todo of Undefined \<Rightarrow> ''undefined'' | Null \<Rightarrow> ''null'' | Val p \<Rightarrow> p)"

definition initialCounts :: "string \<Rightarrow> jsnum option" where
  "initialCounts = [''low'' \<mapsto> Num 0, ''medium'' \<mapsto> Num 0, ''high'' \<mapsto> Num 0]"

definition svc_getStats :: "string \<Rightarrow> Row list \<Rightarrow> error + Stats" where
  "svc_getStats now db =
     (case svc_getAllTodos None db of
        Inl e \<Rightarrow> Inl e
      | Inr allTodos \<Rightarrow>
          (case svc_getOverdueTodos now db of
             Inl e \<Rightarrow> Inl e
           | Inr overdueTodos \<Rightarrow>
               (let completedCount = int (length (filter (\<lambda>todo. completed todo = Some True) allTodos));
                    pendingCount = int (length allTodos) - completedCount;
                    counts = fold (\<lambda>todo acc. increment acc (priorityKey todo)) allTodos initialCounts
                in Inr \<lparr>s_total = int (length allTodos),
                        s_completed = completedCount,
                        s_pending = pendingCount,
                        s_overdue = int (length overdueTodos),
                        s_byPriority = counts\<rparr>)))"

text \<open>
  \<open>searchTodos\<close>. The callback of \<open>filter\<close> reads \<open>todo.title.toLowerCase()\<close>, which
  throws on an \<open>undefined\<close> title; \<open>todo.description?.toLowerCase()\<close> does not throw.
\<close>

definition searchMatch :: "string \<Rightarrow> Todo \<Rightarrow> error + bool" where
  "searchMatch searchTerm todo =
     (case title todo of
        None \<Rightarrow> Inl JSTypeError
      | Some t \<Rightarrow>
          if includes_str (toLowerCase t) searchTerm then Inr True
          else if (case description todo of
                     Val d \<Rightarrow> includes_str (toLowerCase d) searchTerm
                   | _ \<Rightarrow> False) then Inr True
          else (case tags todo of
                  None \<Rightarrow> Inl JSTypeError
                | Some ts \<Rightarrow> Inr (list_ex (\<lambda>tag. includes_str (toLowerCase tag) searchTerm) ts)))"

fun filterTodos :: "(Todo \<Rightarrow> error + bool) \<Rightarrow> Todo list \<Rightarrow> error + Todo list" where
  "filterTodos p [] = Inr []"
| "filterTodos p (t # ts) =
     (case p t of
        Inl e \<Rightarrow> Inl e
      | Inr b \<Rightarrow>
          (case filterTodos p ts of
             Inl e \<Rightarrow> Inl e
           | Inr r \<Rightarrow> Inr (if b then t # r else r)))"

definition svc_searchTodos :: "string \<Rightarrow> Row list \<Rightarrow> error + Todo list" where
  "svc_searchTodos query db =
     (if trim query = [] then svc_getAllTodos None db
      else case svc_getAllTodos None db of
        Inl e \<Rightarrow> Inl e
      | Inr allTodos \<Rightarrow> filterTodos (searchMatch (trim (toLowerCase query))) allTodos)"

section \<open>Rows the store writes\<close>

text \<open>
  These definitions are not in the source; they state what the source maintains.
  \<open>wellFormed\<close> holds of every row written through \<open>bindTodo\<close>: no empty text in a
  nullable column, \<open>completed\<close> 0 or 1, and a \<open>tags\<close> column that is \<open>NULL\<close> or the
  JSON text of the list it parses to. \<open>reachable\<close> are the stores the service produces from the empty one.
  \<open>stored v\<close> is what is read back for a \<open>description\<close> or \<open>dueDate\<close> \<open>v\<close> after
  \<open>v || null\<close> has been written.
\<close>

definition wellFormed :: "Row \<Rightarrow> bool" where
  "wellFormed r =
     (row_description r \<noteq> Some [] \<and> row_due_date r \<noteq> Some []
      \<and> (row_completed r = 0 \<or> row_completed r = 1)
      \<and> (case row_tags r of
           None \<Rightarrow> True
         | Some text \<Rightarrow>
             (case JSON_parse text of None \<Rightarrow> False | Some ts \<Rightarrow> JSON_stringify ts = text)))"

inductive reachable :: "Row list \<Rightarrow> bool" where
  empty: "reachable []"
| create: "reachable db \<Longrightarrow> reachable (snd (svc_createTodo validDate input newId now db))"
| update: "reachable db \<Longrightarrow> reachable (snd (svc_updateTodo validDate i upd now db))"
| delete: "reachable db \<Longrightarrow> reachable (snd (svc_deleteTodo i db))"

definition stored :: "string js \<Rightarrow> string js" where
  "stored v = (case orNull v of None \<Rightarrow> Null | Some d \<Rightarrow> Val d)"

section \<open>Sample data\<close>

definition sampleRow :: Row where
  "sampleRow = \<lparr>row_id = ''a1'', row_title = ''Buy milk'', row_description = Some ''2 litres'',
     row_completed = 0, row_priority = Some ''high'', row_due_date = Some ''2024-06-27T10:00:00.000Z'',
     row_tags = Some ''[\"Work\",\"health\"]'', row_created_at = ''2024-06-01T08:00:00.000Z'',
     row_updated_at = ''2024-06-01T08:00:00.000Z''\<rparr>"

definition badUpdate :: UpdateTodoInput where
  "badUpdate = \<lparr>ui_title = Given ''   '', ui_description = Absent, ui_completed = Absent,
     ui_priority = Given ''urgent'', ui_dueDate = Given ''not a date'', ui_tags = Absent\<rparr>"

definition reviewRow :: Row where
  "reviewRow = \<lparr>row_id = ''b2'', row_title = ''Review MCP documentation'', row_description = None,
     row_completed = 0, row_priority = Some ''medium'', row_due_date = Some ''2024-06-20T09:00:00.000Z'',
     row_tags = Some ''[\"work\"]'', row_created_at = ''2024-06-02T08:00:00.000Z'',
     row_updated_at = ''2024-06-02T08:00:00.000Z''\<rparr>"

definition exerciseRow :: Row where
  "exerciseRow = \<lparr>row_id = ''c3'', row_title = ''Exercise'', row_description = Some ''Gym at work'',
     row_completed = 1, row_priority = Some ''low'', row_due_date = Some ''2024-06-10T09:00:00.000Z'',
     row_tags = Some ''[]'', row_created_at = ''2024-06-03T08:00:00.000Z'',
     row_updated_at = ''2024-06-05T08:00:00.000Z''\<rparr>"

definition tripRow :: Row where
  "tripRow = \<lparr>row_id = ''d4'', row_title = ''Plan trip'', row_description = None,
     row_completed = 0, row_priority = Some ''low'', row_due_date = None,
     row_tags = Some ''[\"personal\"]'', row_created_at = ''2024-06-04T08:00:00.000Z'',
     row_updated_at = ''2024-06-04T08:00:00.000Z''\<rparr>"

definition sampleDb :: "Row list" where
  "sampleDb = [sampleRow, reviewRow, exerciseRow, tripRow]"

definition sampleTodo :: Todo where
  "sampleTodo = \<lparr>todo_id = ''a1'', title = Some ''Buy milk'', description = Val ''2 litres'',
     completed = Some False, priority = Val ''high'', dueDate = Val ''2024-06-27T10:00:00.000Z'',
     tags = Some [''Work'', ''health''], createdAt = ''2024-06-01T08:00:00.000Z'',
     updatedAt = ''2024-06-01T08:00:00.000Z''\<rparr>"

definition reviewTodo :: Todo where
  "reviewTodo = \<lparr>todo_id = ''b2'', title = Some ''Review MCP documentation'', description = Null,
     completed = Some False, priority = Val ''medium'', dueDate = Val ''2024-06-20T09:00:00.000Z'',
     tags = Some [''work''], createdAt = ''2024-06-02T08:00:00.000Z'',
     updatedAt = ''2024-06-02T08:00:00.000Z''\<rparr>"

definition exerciseTodo :: Todo where
  "exerciseTodo = \<lparr>todo_id = ''c3'', title = Some ''Exercise'', description = Val ''Gym at work'',
     completed = Some True, priority = Val ''low'', dueDate = Val ''2024-06-10T09:00:00.000Z'',
     tags = Some [], createdAt = ''2024-06-03T08:00:00.000Z'',
     updatedAt = ''2024-06-05T08:00:00.000Z''\<rparr>"

definition tripTodo :: Todo where
  "tripTodo = \<lparr>todo_id = ''d4'', title = Some ''Plan trip'', description = Null,
     completed = Some False, priority = Val ''low'', dueDate = Null,
     tags = Some [''personal''], createdAt = ''2024-06-04T08:00:00.000Z'',
     updatedAt = ''2024-06-04T08:00:00.000Z''\<rparr>"

definition milkInput :: CreateTodoInput where
  "milkInput = \<lparr>ci_title = Some ''Buy milk'', ci_description = Some '''', ci_priority = None,
     ci_dueDate = None, ci_tags = Some [''work'']\<rparr>"

definition quoteInput :: CreateTodoInput where
  "quoteInput = \<lparr>ci_title = Some ''Read'', ci_description = Some ''a book'', ci_priority = Some ''low'',
     ci_dueDate = Some ''2024-08-01'', ci_tags = Some [''a\"b'', ''50%'']\<rparr>"

definition milkTodo :: Todo where
  "milkTodo = \<lparr>todo_id = ''id-1'', title = Some ''Buy milk'', description = Val '''',
     completed = Some False, priority = Val ''medium'', dueDate = Undefined,
     tags = Some [''work''], createdAt = ''2024-06-01T08:00:00.000Z'',
     updatedAt = ''2024-06-01T08:00:00.000Z''\<rparr>"

definition milkRow :: Row where
  "milkRow = \<lparr>row_id = ''id-1'', row_title = ''Buy milk'', row_description = None,
     row_completed = 0, row_priority = Some ''medium'', row_due_date = None,
     row_tags = Some ''[\"work\"]'', row_created_at = ''2024-06-01T08:00:00.000Z'',
     row_updated_at = ''2024-06-01T08:00:00.000Z''\<rparr>"

definition quoteTodo :: Todo where
  "quoteTodo = \<lparr>todo_id = ''id-2'', title = Some ''Read'', description = Val ''a book'',
     completed = Some False, priority = Val ''low'', dueDate = Val ''2024-08-01'',
     tags = Some [''a\"b'', ''50%''], createdAt = ''2024-06-02T08:00:00.000Z'',
     updatedAt = ''2024-06-02T08:00:00.000Z''\<rparr>"

definition quoteRow :: Row where
  "quoteRow = \<lparr>row_id = ''id-2'', row_title = ''Read'', row_description = Some ''a book'',
     row_completed = 0, row_priority = Some ''low'', row_due_date = Some ''2024-08-01'',
     row_tags = Some [CHR ''['', CHR 0x22, CHR ''a'', CHR 0x5C, CHR 0x22, CHR ''b'', CHR 0x22,
                      CHR '','', CHR 0x22, CHR ''5'', CHR ''0'', CHR ''%'', CHR 0x22, CHR '']''],
     row_created_at = ''2024-06-02T08:00:00.000Z'',
     row_updated_at = ''2024-06-02T08:00:00.000Z''\<rparr>"

definition tagFilter :: "string \<Rightarrow> TodoFilter option" where
  "tagFilter t = Some \<lparr>f_completed = None, f_priority = None, f_tag = Some t,
     f_dueBefore = None, f_dueAfter = None\<rparr>"

definition adapterUpdate :: UpdateTodoInput where
  "adapterUpdate = \<lparr>ui_title = Given ''Exercise daily'', ui_description = Undef, ui_completed = Undef,
     ui_priority = Given ''high'', ui_dueDate = Undef, ui_tags = Given [''health'']\<rparr>"

definition adapterTitleUpdate :: UpdateTodoInput where
  "adapterTitleUpdate = \<lparr>ui_title = Given ''Exercise daily'', ui_description = Undef,
     ui_completed = Undef, ui_priority = Undef, ui_dueDate = Undef, ui_tags = Undef\<rparr>"

definition adapterEmptyUpdate :: UpdateTodoInput where
  "adapterEmptyUpdate = \<lparr>ui_title = Undef, ui_description = Undef, ui_completed = Undef,
     ui_priority = Undef, ui_dueDate = Undef, ui_tags = Undef\<rparr>"

definition offsetInput :: CreateTodoInput where
  "offsetInput = \<lparr>ci_title = Some ''File taxes'', ci_description = None, ci_priority = None,
     ci_dueDate = Some ''2024-07-01T01:00:00+02:00'', ci_tags = None\<rparr>"

definition offsetTodo :: Todo where
  "offsetTodo = \<lparr>todo_id = ''id-3'', title = Some ''File taxes'', description = Undefined,
     completed = Some False, priority = Val ''medium'', dueDate = Val ''2024-07-01T01:00:00+02:00'',
     tags = Some [], createdAt = ''2024-06-01T08:00:00.000Z'',
     updatedAt = ''2024-06-01T08:00:00.000Z''\<rparr>"

definition offsetRow :: Row where
  "offsetRow = \<lparr>row_id = ''id-3'', row_title = ''File taxes'', row_description = None,
     row_completed = 0, row_priority = Some ''medium'',
     row_due_date = Some ''2024-07-01T01:00:00+02:00'',
     row_tags = Some ''[]'', row_created_at = ''2024-06-01T08:00:00.000Z'',
     row_updated_at = ''2024-06-01T08:00:00.000Z''\<rparr>"

definition aheadInput :: CreateTodoInput where
  "aheadInput = \<lparr>ci_title = Some ''Call Ann'', ci_description = None, ci_priority = None,
     ci_dueDate = Some ''2024-06-30T23:00:00-05:00'', ci_tags = None\<rparr>"

definition aheadTodo :: Todo where
  "aheadTodo = \<lparr>todo_id = ''id-4'', title = Some ''Call Ann'', description = Undefined,
     completed = Some False, priority = Val ''medium'', dueDate = Val ''2024-06-30T23:00:00-05:00'',
     tags = Some [], createdAt = ''2024-06-02T08:00:00.000Z'',
     updatedAt = ''2024-06-02T08:00:00.000Z''\<rparr>"

definition aheadRow :: Row where
  "aheadRow = \<lparr>row_id = ''id-4'', row_title = ''Call Ann'', row_description = None,
     row_completed = 0, row_priority = Some ''medium'',
     row_due_date = Some ''2024-06-30T23:00:00-05:00'',
     row_tags = Some ''[]'', row_created_at = ''2024-06-02T08:00:00.000Z'',
     row_updated_at = ''2024-06-02T08:00:00.000Z''\<rparr>"

section \<open>Supporting lemmas\<close>

lemma trim_Nil_iff: "trim s = [] \<longleftrightarrow> (\<forall>c\<in>set s. isWhiteSpace c)"
proof
  assume "trim s = []"
  then have "dropWhile isWhiteSpace (rev (dropWhile isWhiteSpace s)) = []"
    by (simp add: trim_def)
  then have a: "\<forall>c\<in>set (dropWhile isWhiteSpace s). isWhiteSpace c"
    by (simp add: dropWhile_eq_Nil_conv)
  have "dropWhile isWhiteSpace s = []"
  proof (rule ccontr)
    assume n: "dropWhile isWhiteSpace s \<noteq> []"
    then have "\<not> isWhiteSpace (hd (dropWhile isWhiteSpace s))"
      by (rule hd_dropWhile)
    moreover from n have "hd (dropWhile isWhiteSpace s) \<in> set (dropWhile isWhiteSpace s)"
      by simp
    ultimately show False using a by blast
  qed
  then show "\<forall>c\<in>set s. isWhiteSpace c"
    by (simp add: dropWhile_eq_Nil_conv)
next
  assume "\<forall>c\<in>set s. isWhiteSpace c"
  then have dw: "dropWhile isWhiteSpace s = []"
    by (simp add: dropWhile_eq_Nil_conv)
  show "trim s = []"
    unfolding trim_def dw by simp
qed

lemma isWhiteSpace_space: "isWhiteSpace CHR '' ''"
  by (simp add: isWhiteSpace_def charCode_def)

lemma find_None_row: "i \<notin> set (map row_id db) \<Longrightarrow> find (\<lambda>r. row_id r = i) db = None"
  by (induction db) auto

text \<open>\<open>JSON.parse\<close> reads back what \<open>JSON.stringify\<close> wrote.\<close>

lemma charCode_eqI: "charCode c = charCode d \<Longrightarrow> c = d"
  by (simp add: charCode_def)

lemma charCode_less: "charCode c < 256"
  by (simp add: charCode_def)

lemma hexVal_hexDigit: "k < 16 \<Longrightarrow> hexVal (hexDigit k) = Some k"
  by (simp add: hexVal_def hexDigit_def charCode_def)

lemma hexVal_zero: "hexVal CHR ''0'' = Some 0"
  by (simp add: hexVal_def charCode_def)

lemma decode_unicode_escape:
  assumes "charCode c < 32"
  shows "decodeEscape (CHR ''u'' # CHR ''0'' # CHR ''0'' # hexDigit (charCode c div 16)
            # hexDigit (charCode c mod 16) # rest) = Some (c, rest)"
proof -
  from assms have hi: "charCode c div 16 < 16" by simp
  have lo: "charCode c mod 16 < 16" by simp
  have v: "((0 * 16 + 0) * 16 + charCode c div 16) * 16 + charCode c mod 16 = charCode c"
    by simp
  have c: "char_of (charCode c) = c"
    by (simp add: charCode_def)
  show ?thesis
    unfolding decodeEscape_def
    by (simp add: hexVal_zero hexVal_hexDigit [OF hi] hexVal_hexDigit [OF lo] c charCode_less)
qed

lemma decode_simple_escape:
  "e \<noteq> CHR ''u'' \<Longrightarrow> unescape e = Some x \<Longrightarrow> decodeEscape (e # rest) = Some (x, rest)"
  by (simp add: decodeEscape_def)

lemma parseChars_escape:
  "decodeEscape cs = Some (x, r) \<Longrightarrow> parseChars (CHR 0x5C # cs) = consChar x (parseChars r)"
  by simp

lemma parseChars_quoteChar: "parseChars (quoteChar c @ rest) = consChar c (parseChars rest)"
proof -
  consider (b) "charCode c = 8" | (t) "charCode c = 9" | (n) "charCode c = 10"
    | (f) "charCode c = 12" | (r) "charCode c = 13" | (q) "charCode c = 34"
    | (s) "charCode c = 92"
    | (u) "charCode c < 32" "charCode c \<noteq> 8" "charCode c \<noteq> 9" "charCode c \<noteq> 10"
          "charCode c \<noteq> 12" "charCode c \<noteq> 13"
    | (p) "32 \<le> charCode c" "charCode c \<noteq> 34" "charCode c \<noteq> 92"
    by linarith
  then show ?thesis
  proof cases
    case b
    then have c: "c = CHR 0x08" by (intro charCode_eqI) (simp add: charCode_def)
    have "decodeEscape (CHR ''b'' # rest) = Some (CHR 0x08, rest)"
      by (rule decode_simple_escape) (simp_all add: unescape_def)
    from parseChars_escape [OF this] show ?thesis
      by (simp add: c quoteChar_def charCode_def)
  next
    case t
    then have c: "c = CHR 0x09" by (intro charCode_eqI) (simp add: charCode_def)
    have "decodeEscape (CHR ''t'' # rest) = Some (CHR 0x09, rest)"
      by (rule decode_simple_escape) (simp_all add: unescape_def)
    from parseChars_escape [OF this] show ?thesis
      by (simp add: c quoteChar_def charCode_def)
  next
    case n
    then have c: "c = CHR 0x0A" by (intro charCode_eqI) (simp add: charCode_def)
    have "decodeEscape (CHR ''n'' # rest) = Some (CHR 0x0A, rest)"
      by (rule decode_simple_escape) (simp_all add: unescape_def)
    from parseChars_escape [OF this] show ?thesis
      by (simp add: c quoteChar_def charCode_def)
  next
    case f
    then have c: "c = CHR 0x0C" by (intro charCode_eqI) (simp add: charCode_def)
    have "decodeEscape (CHR ''f'' # rest) = Some (CHR 0x0C, rest)"
      by (rule decode_simple_escape) (simp_all add: unescape_def)
    from parseChars_escape [OF this] show ?thesis
      by (simp add: c quoteChar_def charCode_def)
  next
    case r
    then have c: "c = CHR 0x0D" by (intro charCode_eqI) (simp add: charCode_def)
    have "decodeEscape (CHR ''r'' # rest) = Some (CHR 0x0D, rest)"
      by (rule decode_simple_escape) (simp_all add: unescape_def)
    from parseChars_escape [OF this] show ?thesis
      by (simp add: c quoteChar_def charCode_def)
  next
    case q
    then have c: "c = CHR 0x22" by (intro charCode_eqI) (simp add: charCode_def)
    have "decodeEscape (CHR 0x22 # rest) = Some (CHR 0x22, rest)"
      by (rule decode_simple_escape) (simp_all add: unescape_def)
    from parseChars_escape [OF this] show ?thesis
      by (simp add: c quoteChar_def charCode_def)
  next
    case s
    then have c: "c = CHR 0x5C" by (intro charCode_eqI) (simp add: charCode_def)
    have "decodeEscape (CHR 0x5C # rest) = Some (CHR 0x5C, rest)"
      by (rule decode_simple_escape) (simp_all add: unescape_def)
    from parseChars_escape [OF this] show ?thesis
      by (simp add: c quoteChar_def charCode_def)
  next
    case u
    from parseChars_escape [OF decode_unicode_escape [OF u(1)]] u show ?thesis
      by (simp add: quoteChar_def)
  next
    case p
    have "c \<noteq> CHR 0x22" "c \<noteq> CHR 0x5C"
      using p by (auto simp: charCode_def)
    with p show ?thesis
      by (simp add: quoteChar_def)
  qed
qed

lemma parseChars_quoted:
  "parseChars (concat (map quoteChar s) @ CHR 0x22 # rest) = Some (s, rest)"
  by (induction s) (simp_all add: parseChars_quoteChar consChar_def)

lemma parseItems_step:
  "parseItems (quoteJSONString t @ x # rest') =
     (if x = CHR '']'' \<and> rest' = [] then Some [t]
      else if x = CHR '','' then map_option ((#) t) (parseItems rest')
      else None)"
proof -
  have "quoteJSONString t @ x # rest' = CHR 0x22 # (concat (map quoteChar t) @ CHR 0x22 # x # rest')"
    by (simp add: quoteJSONString_def)
  then show ?thesis
    using parseChars_quoted [of t "x # rest'"]
    by (subst parseItems.simps) simp
qed

lemma parseItems_joined:
  "ts \<noteq> [] \<Longrightarrow> parseItems (joinComma (map quoteJSONString ts) @ [CHR '']'']) = Some ts"
proof (induction ts rule: joinComma.induct)
  case 1
  then show ?case by simp
next
  case (2 x)
  then show ?case
    using parseItems_step [of x "CHR '']''" "[]"] by simp
next
  case (3 x y ys)
  then show ?case
    using parseItems_step [of x "CHR '',''" "joinComma (map quoteJSONString (y # ys)) @ [CHR '']'']"]
    by simp
qed

lemma quoteJSONString_head: "\<exists>r. quoteJSONString t = CHR 0x22 # r"
  by (simp add: quoteJSONString_def)

lemma JSON_roundtrip: "JSON_parse (JSON_stringify ts) = Some ts"
proof (cases ts)
  case Nil
  then show ?thesis
    by (simp add: JSON_parse_def JSON_stringify_def)
next
  case (Cons t ts')
  obtain r where r: "quoteJSONString t = CHR 0x22 # r"
    using quoteJSONString_head by blast
  have "joinComma (map quoteJSONString (t # ts')) @ [CHR '']''] \<noteq> [CHR '']'']"
    by (cases ts') (simp_all add: r)
  with parseItems_joined [of "t # ts'"] Cons show ?thesis
    by (simp add: JSON_parse_def JSON_stringify_def)
qed

lemma JSON_parse_empty: "JSON_parse ''[]'' = Some []"
  by (simp add: JSON_parse_def)

section \<open>Identifiers and existence\<close>

text \<open>
  C10: for an id that is empty or consists of white space only, \<open>getTodoById\<close>,
  \<open>updateTodo\<close> and \<open>deleteTodo\<close> of the service raise the error
  \<open>Todo ID is required\<close> (not a not-found result, not \<open>false\<close>) and leave the store
  as it was, whatever the store and the update input.
\<close>

theorem blank_id_rejected:
  assumes "\<forall>c\<in>set i. isWhiteSpace c"
  shows "svc_getTodoById i db = Inl (Error ''Todo ID is required'')
       \<and> svc_updateTodo validDate i input now db = (Inl (Error ''Todo ID is required''), db)
       \<and> svc_deleteTodo i db = (Inl (Error ''Todo ID is required''), db)"
proof -
  from assms have "trim i = []"
    by (simp add: trim_Nil_iff)
  then show ?thesis
    by (simp add: svc_getTodoById_def svc_updateTodo_def svc_deleteTodo_def)
qed

text \<open>C10 at the id of two spaces, on a store of one row.\<close>

theorem blank_id_rejected_witness:
  "svc_getTodoById ''  '' [sampleRow] = Inl (Error ''Todo ID is required'')
   \<and> svc_updateTodo (\<lambda>d. True) ''  '' (noUpdate\<lparr>ui_completed := Given True\<rparr>) ''2024-07-01T00:00:00.000Z'' [sampleRow]
       = (Inl (Error ''Todo ID is required''), [sampleRow])
   \<and> svc_deleteTodo ''  '' [sampleRow] = (Inl (Error ''Todo ID is required''), [sampleRow])"
  using blank_id_rejected [of "''  ''" "[sampleRow]" "\<lambda>d. True" "noUpdate\<lparr>ui_completed := Given True\<rparr>" "''2024-07-01T00:00:00.000Z''"]
  by (simp add: isWhiteSpace_space)

text \<open>
  C6, as amended: for an id that has a character other than white space and that no row
  carries, \<open>updateTodo\<close> fails with the not-found error and leaves the store as it was,
  for every update input and every date parser: no field is validated before the
  existence check.
\<close>

theorem update_unknown_id_not_found:
  assumes "\<exists>c\<in>set i. \<not> isWhiteSpace c" and "i \<notin> set (map row_id db)"
  shows "svc_updateTodo validDate i input now db = (Inl (notFound i), db)"
proof -
  from assms(1) have "trim i \<noteq> []"
    by (simp add: trim_Nil_iff)
  moreover from assms(2) have "db_getTodoById i db = Inr None"
    by (simp add: db_getTodoById_def find_None_row)
  ultimately show ?thesis
    by (simp add: svc_updateTodo_def)
qed

text \<open>
  C6 at an unknown id with an empty title, an invalid priority and a due date the parser
  rejects: the error is the not-found error.
\<close>

theorem update_unknown_id_not_found_witness:
  "svc_updateTodo (\<lambda>d. False) ''zz'' badUpdate ''2024-07-01T00:00:00.000Z'' [sampleRow]
     = (Inl (Error ''Todo with ID zz not found''), [sampleRow])"
proof -
  have a: "\<exists>c\<in>set ''zz''. \<not> isWhiteSpace c"
    by (simp add: isWhiteSpace_def charCode_def)
  have b: "''zz'' \<notin> set (map row_id [sampleRow])"
    by (simp add: sampleRow_def)
  show ?thesis
    using update_unknown_id_not_found [OF a b, of "\<lambda>d. False" badUpdate "''2024-07-01T00:00:00.000Z''"]
    by (simp add: notFound_def)
qed

text \<open>
  C6 as first stated fails at a blank id: no row carries the id of one space, and the
  update fails with \<open>Todo ID is required\<close>, which is not the not-found error.
\<close>

theorem update_blank_id_counterexample:
  "'' '' \<notin> set (map row_id [sampleRow])
   \<and> svc_updateTodo (\<lambda>d. True) '' '' noUpdate ''2024-07-01T00:00:00.000Z'' [sampleRow]
       = (Inl (Error ''Todo ID is required''), [sampleRow])
   \<and> Error ''Todo ID is required'' \<noteq> notFound '' ''"
  by (simp add: sampleRow_def svc_updateTodo_def trim_def isWhiteSpace_def charCode_def notFound_def)

text \<open>
  C9: \<open>completeTodo(id)\<close> is \<open>updateTodo(id, {completed: true})\<close>: the same result
  (the updated \<open>Todo\<close> or the same error) and the same final store, for every id and
  store.
\<close>

theorem complete_is_update_completed:
  "svc_completeTodo validDate i now db =
     svc_updateTodo validDate i
       \<lparr>ui_title = Absent, ui_description = Absent, ui_completed = Given True,
        ui_priority = Absent, ui_dueDate = Absent, ui_tags = Absent\<rparr> now db"
  by (simp add: svc_completeTodo_def noUpdate_def)

text \<open>C9 on a store of one pending row: the row is completed and re-stamped.\<close>

theorem complete_is_update_completed_witness:
  "svc_completeTodo (\<lambda>d. True) ''a1'' ''2024-07-01T00:00:00.000Z'' [sampleRow]
     = (Inr \<lparr>todo_id = ''a1'', title = Some ''Buy milk'', description = Val ''2 litres'',
             completed = Some True, priority = Val ''high'',
             dueDate = Val ''2024-06-27T10:00:00.000Z'', tags = Some [''Work'', ''health''],
             createdAt = ''2024-06-01T08:00:00.000Z'', updatedAt = ''2024-07-01T00:00:00.000Z''\<rparr>,
        [sampleRow\<lparr>row_completed := 1, row_updated_at := ''2024-07-01T00:00:00.000Z''\<rparr>])"
proof -
  have "svc_updateTodo (\<lambda>d. True) ''a1''
       \<lparr>ui_title = Absent, ui_description = Absent, ui_completed = Given True,
        ui_priority = Absent, ui_dueDate = Absent, ui_tags = Absent\<rparr> ''2024-07-01T00:00:00.000Z'' [sampleRow]
     = (Inr \<lparr>todo_id = ''a1'', title = Some ''Buy milk'', description = Val ''2 litres'',
             completed = Some True, priority = Val ''high'',
             dueDate = Val ''2024-06-27T10:00:00.000Z'', tags = Some [''Work'', ''health''],
             createdAt = ''2024-06-01T08:00:00.000Z'', updatedAt = ''2024-07-01T00:00:00.000Z''\<rparr>,
        [sampleRow\<lparr>row_completed := 1, row_updated_at := ''2024-07-01T00:00:00.000Z''\<rparr>])"
    by code_simp
  then show ?thesis
    using complete_is_update_completed [of "\<lambda>d. True" "''a1''" "''2024-07-01T00:00:00.000Z''" "[sampleRow]"]
    by simp
qed

section \<open>Reading the store\<close>

lemma rowsToTodos_readable:
  "rowsToTodos rs = Inr ts \<Longrightarrow> \<forall>r\<in>set rs. \<exists>t. rowToTodo r = Inr t"
  by (induction rs arbitrary: ts) (auto split: sum.splits)

lemma rowsToTodos_map:
  "\<forall>r\<in>set rs. \<exists>t. rowToTodo r = Inr t \<Longrightarrow>
   rowsToTodos rs = Inr (map (\<lambda>r. projr (rowToTodo r)) rs)"
  by (induction rs) auto

lemma rowsToTodos_Inr:
  "rowsToTodos rs = Inr ts \<Longrightarrow> ts = map (\<lambda>r. projr (rowToTodo r)) rs"
  using rowsToTodos_map [OF rowsToTodos_readable] by fastforce

lemma rowsToTodos_Inl:
  "rowsToTodos rs = Inl e \<Longrightarrow> \<exists>r\<in>set rs. rowToTodo r = Inl e"
  by (induction rs) (auto split: sum.splits)

lemma whereClause_None: "filter (whereClause None) db = db"
  by (simp add: whereClause_def)

lemma getAll_readable:
  assumes "svc_getAllTodos None db = Inr allTodos"
  shows "\<forall>r\<in>set db. \<exists>t. rowToTodo r = Inr t"
    and "allTodos = map (\<lambda>r. projr (rowToTodo r)) (rev (sort_key row_created_at db))"
proof -
  from assms have a: "rowsToTodos (rev (sort_key row_created_at db)) = Inr allTodos"
    by (simp add: svc_getAllTodos_def db_getAllTodos_def whereClause_None)
  from rowsToTodos_readable [OF a] show "\<forall>r\<in>set db. \<exists>t. rowToTodo r = Inr t"
    by simp
  from rowsToTodos_Inr [OF a]
  show "allTodos = map (\<lambda>r. projr (rowToTodo r)) (rev (sort_key row_created_at db))" .
qed

lemma todo_of_row:
  assumes "rowToTodo r = Inr t"
  shows "todo_id t = row_id r" and "title t = Some (row_title r)"
    and "description t = (case row_description r of None \<Rightarrow> Null | Some d \<Rightarrow> Val d)"
    and "completed t = Some (row_completed r \<noteq> 0)"
    and "priority t = (case row_priority r of None \<Rightarrow> Null | Some p \<Rightarrow> Val p)"
    and "dueDate t = (case row_due_date r of None \<Rightarrow> Null | Some d \<Rightarrow> Val d)"
    and "tags t = JSON_parse (case row_tags r of
                                None \<Rightarrow> ''[]''
                              | Some text \<Rightarrow> if text = [] then ''[]'' else text)"
    and "tags t \<noteq> None"
    and "createdAt t = row_created_at r" and "updatedAt t = row_updated_at r"
  using assms by (auto simp: rowToTodo_def split: option.splits)

lemma overdue_todo_iff:
  assumes "rowToTodo r = Inr t"
  shows "(completed t = Some False \<and> (\<exists>d. dueDate t = Val d \<and> d < now)) \<longleftrightarrow> overdueRow now r"
  using todo_of_row(4,6) [OF assms] by (auto simp: overdueRow_def split: option.splits)

lemma mset_overdue:
  assumes "\<forall>r\<in>set db. \<exists>t. rowToTodo r = Inr t"
  shows "image_mset (\<lambda>r. projr (rowToTodo r)) (filter_mset (overdueRow now) (mset db))
       = filter_mset (\<lambda>t. completed t = Some False \<and> (\<exists>d. dueDate t = Val d \<and> d < now))
           (image_mset (\<lambda>r. projr (rowToTodo r)) (mset db))"
proof -
  have "\<And>r. r \<in># mset db \<Longrightarrow>
      (completed (projr (rowToTodo r)) = Some False
        \<and> (\<exists>d. dueDate (projr (rowToTodo r)) = Val d \<and> d < now)) = overdueRow now r"
  proof -
    fix r assume "r \<in># mset db"
    with assms obtain t where t: "rowToTodo r = Inr t" by auto
    show "(completed (projr (rowToTodo r)) = Some False
        \<and> (\<exists>d. dueDate (projr (rowToTodo r)) = Val d \<and> d < now)) = overdueRow now r"
      using overdue_todo_iff [OF t] t by simp
  qed
  then have "filter_mset (\<lambda>r. completed (projr (rowToTodo r)) = Some False
        \<and> (\<exists>d. dueDate (projr (rowToTodo r)) = Val d \<and> d < now)) (mset db)
      = filter_mset (overdueRow now) (mset db)"
    by (intro filter_mset_cong refl)
  then show ?thesis
    by (simp only: filter_mset_image_mset)
qed

lemma sorted_by_due:
  assumes "\<forall>r\<in>set rs. \<exists>t. rowToTodo r = Inr t" and "\<forall>r\<in>set rs. row_due_date r \<noteq> None"
    and "sorted (map row_due_date rs)"
  shows "sorted_wrt (\<lambda>a b. \<exists>x y. dueDate a = Val x \<and> dueDate b = Val y \<and> x \<le> y)
           (map (\<lambda>r. projr (rowToTodo r)) rs)"
proof -
  have s: "sorted_wrt (\<lambda>a b. row_due_date a \<le> row_due_date b) rs"
    using assms(3) by (simp add: sorted_map)
  have "sorted_wrt (\<lambda>a b. \<exists>x y. dueDate (projr (rowToTodo a)) = Val x
            \<and> dueDate (projr (rowToTodo b)) = Val y \<and> x \<le> y) rs"
  proof (rule sorted_wrt_mono_rel [OF _ s])
    fix a b assume a: "a \<in> set rs" and b: "b \<in> set rs" and le: "row_due_date a \<le> row_due_date b"
    from a assms(1) obtain ta where ta: "rowToTodo a = Inr ta" by auto
    from b assms(1) obtain tb where tb: "rowToTodo b = Inr tb" by auto
    from a assms(2) obtain x where x: "row_due_date a = Some x" by auto
    from b assms(2) obtain y where y: "row_due_date b = Some y" by auto
    from le x y have "x \<le> y" by simp
    then show "\<exists>x y. dueDate (projr (rowToTodo a)) = Val x
            \<and> dueDate (projr (rowToTodo b)) = Val y \<and> x \<le> y"
      using todo_of_row(6) [OF ta] todo_of_row(6) [OF tb] ta tb x y by simp
  qed
  then show ?thesis
    by (simp add: sorted_wrt_map)
qed

lemma sorted_created_desc:
  assumes "db_getAllTodos flt db = Inr rs"
  shows "sorted_wrt (\<lambda>a b. createdAt b \<le> createdAt a) rs"
proof -
  let ?rows = "rev (sort_key row_created_at (filter (whereClause flt) db))"
  from assms have a: "rowsToTodos ?rows = Inr rs"
    by (simp add: db_getAllTodos_def)
  have rd: "\<forall>r\<in>set ?rows. \<exists>t. rowToTodo r = Inr t"
    using rowsToTodos_readable [OF a] .
  have rs: "rs = map (\<lambda>r. projr (rowToTodo r)) ?rows"
    using rowsToTodos_Inr [OF a] .
  have "sorted (map row_created_at (sort_key row_created_at (filter (whereClause flt) db)))"
    by (rule sorted_sort_key)
  then have "sorted_wrt (\<lambda>a b. row_created_at a \<le> row_created_at b)
       (sort_key row_created_at (filter (whereClause flt) db))"
    by (simp add: sorted_map)
  then have s: "sorted_wrt (\<lambda>a b. row_created_at b \<le> row_created_at a) ?rows"
    by (simp add: sorted_wrt_rev)
  have "sorted_wrt (\<lambda>a b. createdAt (projr (rowToTodo b)) \<le> createdAt (projr (rowToTodo a))) ?rows"
  proof (rule sorted_wrt_mono_rel [OF _ s])
    fix a b assume a: "a \<in> set ?rows" and b: "b \<in> set ?rows"
      and le: "row_created_at b \<le> row_created_at a"
    from a rd obtain ta where ta: "rowToTodo a = Inr ta" by blast
    from b rd obtain tb where tb: "rowToTodo b = Inr tb" by blast
    show "createdAt (projr (rowToTodo b)) \<le> createdAt (projr (rowToTodo a))"
      using todo_of_row(9) [OF ta] todo_of_row(9) [OF tb] ta tb le by simp
  qed
  then show ?thesis
    unfolding rs by (simp add: sorted_wrt_map)
qed

lemma overdue_result:
  assumes "svc_getAllTodos None db = Inr allTodos"
  shows "db_getOverdueTodos now db
           = Inr (map (\<lambda>r. projr (rowToTodo r)) (sort_key row_due_date (filter (overdueRow now) db)))"
    and "mset (map (\<lambda>r. projr (rowToTodo r)) (sort_key row_due_date (filter (overdueRow now) db)))
           = mset (filter (\<lambda>t. completed t = Some False \<and> (\<exists>d. dueDate t = Val d \<and> d < now)) allTodos)"
proof -
  note rd = getAll_readable(1) [OF assms]
  note al = getAll_readable(2) [OF assms]
  have "\<forall>r\<in>set (sort_key row_due_date (filter (overdueRow now) db)). \<exists>t. rowToTodo r = Inr t"
    using rd by simp
  from rowsToTodos_map [OF this]
  show "db_getOverdueTodos now db
           = Inr (map (\<lambda>r. projr (rowToTodo r)) (sort_key row_due_date (filter (overdueRow now) db)))"
    by (simp add: db_getOverdueTodos_def)
  show "mset (map (\<lambda>r. projr (rowToTodo r)) (sort_key row_due_date (filter (overdueRow now) db)))
           = mset (filter (\<lambda>t. completed t = Some False \<and> (\<exists>d. dueDate t = Val d \<and> d < now)) allTodos)"
    unfolding al using mset_overdue [OF rd, of now] by simp
qed

lemma sampleDb_all:
  "svc_getAllTodos None sampleDb = Inr [tripTodo, exerciseTodo, reviewTodo, sampleTodo]"
  by code_simp

lemma empty_all: "svc_getAllTodos None [] = Inr []"
  by code_simp

section \<open>Invariant of the store\<close>

lemma orNull_nonempty: "orNull v \<noteq> Some []"
  by (simp add: orNull_def split: js.splits)

lemma bindTodo_wellFormed: "bindTodo t = Inr r \<Longrightarrow> wellFormed r"
  by (auto simp: bindTodo_def wellFormed_def orNull_nonempty JSON_roundtrip split: option.splits)

lemma JSON_stringify_nonempty: "JSON_stringify ts \<noteq> []"
  by (simp add: JSON_stringify_def)

lemma wellFormed_tags:
  assumes "wellFormed r" and "row_tags r = Some text"
  shows "\<exists>ts. text = JSON_stringify ts \<and> JSON_parse text = Some ts \<and> text \<noteq> []"
proof (cases "JSON_parse text")
  case None
  with assms show ?thesis by (simp add: wellFormed_def)
next
  case (Some ts)
  with assms have "JSON_stringify ts = text" by (simp add: wellFormed_def)
  with Some JSON_stringify_nonempty [of ts] show ?thesis by auto
qed

lemma wellFormed_readable: "wellFormed r \<Longrightarrow> \<exists>t. rowToTodo r = Inr t"
proof (cases "row_tags r")
  case None
  then show ?thesis by (simp add: rowToTodo_def JSON_parse_empty)
next
  case (Some tx)
  assume "wellFormed r"
  from wellFormed_tags [OF this Some] Some show ?thesis
    by (auto simp: rowToTodo_def)
qed

lemma db_createTodo_wellFormed:
  "list_all wellFormed db \<Longrightarrow> list_all wellFormed (snd (db_createTodo input newId now db))"
  by (auto simp: db_createTodo_def Let_def dest: bindTodo_wellFormed split: sum.splits)

lemma svc_createTodo_wellFormed:
  "list_all wellFormed db \<Longrightarrow> list_all wellFormed (snd (svc_createTodo validDate input newId now db))"
  by (simp add: svc_createTodo_def db_createTodo_wellFormed split: option.splits)

lemma wellFormed_overwrite:
  "wellFormed b \<Longrightarrow>
   wellFormed (r\<lparr>row_title := row_title b, row_description := row_description b,
                  row_completed := row_completed b, row_priority := row_priority b,
                  row_due_date := row_due_date b, row_tags := row_tags b,
                  row_updated_at := row_updated_at b\<rparr>)"
  by (simp add: wellFormed_def split: option.splits)

lemma runUpdate_wellFormed:
  assumes "list_all wellFormed db" and "wellFormed b"
  shows "list_all wellFormed (runUpdate i b db)"
  using assms(1) unfolding runUpdate_def
  by (induction db) (simp_all add: wellFormed_overwrite [OF assms(2)])

lemma db_updateTodo_wellFormed:
  "list_all wellFormed db \<Longrightarrow> list_all wellFormed (snd (db_updateTodo i input now db))"
  by (auto simp: db_updateTodo_def Let_def runUpdate_wellFormed dest: bindTodo_wellFormed
      split: sum.splits option.splits)

lemma svc_updateTodo_wellFormed:
  assumes "list_all wellFormed db"
  shows "list_all wellFormed (snd (svc_updateTodo validDate i input now db))"
proof -
  have "snd (svc_updateTodo validDate i input now db) = db
      \<or> snd (svc_updateTodo validDate i input now db) = snd (db_updateTodo i (normalizeUpdate input) now db)"
    by (simp add: svc_updateTodo_def split: sum.splits option.splits prod.splits)
  with assms db_updateTodo_wellFormed [OF assms] show ?thesis
    by auto
qed

lemma svc_deleteTodo_wellFormed:
  "list_all wellFormed db \<Longrightarrow> list_all wellFormed (snd (svc_deleteTodo i db))"
  by (auto simp: svc_deleteTodo_def db_deleteTodo_def list_all_iff split: sum.splits option.splits)

lemma reachable_wellFormed: "reachable db \<Longrightarrow> list_all wellFormed db"
  by (induction rule: reachable.induct)
     (simp_all add: svc_createTodo_wellFormed svc_updateTodo_wellFormed svc_deleteTodo_wellFormed)

lemma wellFormed_getAll:
  assumes "list_all wellFormed db"
  shows "\<exists>allTodos. svc_getAllTodos flt db = Inr allTodos"
proof -
  have "\<forall>r\<in>set (rev (sort_key row_created_at (filter (whereClause flt) db))). \<exists>t. rowToTodo r = Inr t"
    using assms by (simp add: list_all_iff wellFormed_readable)
  from rowsToTodos_map [OF this] show ?thesis
    by (simp add: svc_getAllTodos_def db_getAllTodos_def)
qed

lemma reachable_readable: "reachable db \<Longrightarrow> \<exists>allTodos. svc_getAllTodos flt db = Inr allTodos"
  by (rule wellFormed_getAll) (rule reachable_wellFormed)

lemma row_id_runUpdate: "map row_id (runUpdate i b db) = map row_id db"
  unfolding runUpdate_def by (induction db) simp_all

lemma db_createTodo_distinct:
  "distinct (map row_id db) \<Longrightarrow> distinct (map row_id (snd (db_createTodo input newId now db)))"
  by (auto simp: db_createTodo_def Let_def bindTodo_def list_ex_iff split: sum.splits option.splits)

lemma db_updateTodo_ids: "map row_id (snd (db_updateTodo i input now db)) = map row_id db"
  by (simp add: db_updateTodo_def Let_def row_id_runUpdate split: sum.splits option.splits)

lemma svc_updateTodo_ids: "map row_id (snd (svc_updateTodo validDate i input now db)) = map row_id db"
proof -
  have "snd (svc_updateTodo validDate i input now db) = db
      \<or> snd (svc_updateTodo validDate i input now db) = snd (db_updateTodo i (normalizeUpdate input) now db)"
    by (simp add: svc_updateTodo_def split: sum.splits option.splits prod.splits)
  then show ?thesis
    using db_updateTodo_ids [of i "normalizeUpdate input" now db] by auto
qed

lemma reachable_distinct: "reachable db \<Longrightarrow> distinct (map row_id db)"
proof (induction rule: reachable.induct)
  case empty
  then show ?case by simp
next
  case (create db validDate input newId now)
  then show ?case
    by (simp add: svc_createTodo_def db_createTodo_distinct split: option.splits)
next
  case (update db validDate i upd now)
  then show ?case
    by (simp add: svc_updateTodo_ids)
next
  case (delete db i)
  then show ?case
    by (simp add: svc_deleteTodo_def db_deleteTodo_def distinct_map_filter
        split: sum.splits option.splits)
qed

section \<open>Queries\<close>

text \<open>
  What the overdue query computes on the stored texts: it returns exactly the records (as
  \<open>getAllTodos\<close> returns them, with multiplicity) that have \<open>completed = false\<close>, a due
  date, and a due date whose text is less than the text \<open>now\<close>, in ascending order of the
  due date texts; every filtered \<open>getAllTodos\<close> is in descending order of the
  \<open>createdAt\<close> texts. The order of texts is the order of instants only between texts of
  the form \<open>toISOString\<close> writes.
\<close>

lemma overdue_by_text:
  assumes "svc_getAllTodos None db = Inr allTodos"
  shows "(\<exists>ts. db_getOverdueTodos now db = Inr ts
           \<and> mset ts = mset (filter (\<lambda>t. completed t = Some False
                                        \<and> (\<exists>d. dueDate t = Val d \<and> d < now)) allTodos)
           \<and> sorted_wrt (\<lambda>a b. \<exists>x y. dueDate a = Val x \<and> dueDate b = Val y \<and> x \<le> y) ts)
       \<and> (\<forall>flt rs. db_getAllTodos flt db = Inr rs
             \<longrightarrow> sorted_wrt (\<lambda>a b. createdAt b \<le> createdAt a) rs)"
proof -
  let ?rows = "sort_key row_due_date (filter (overdueRow now) db)"
  note rd = getAll_readable(1) [OF assms]
  have r1: "\<forall>r\<in>set ?rows. \<exists>t. rowToTodo r = Inr t"
    using rd by simp
  have r2: "\<forall>r\<in>set ?rows. row_due_date r \<noteq> None"
    by (auto simp: overdueRow_def split: option.splits)
  have r3: "sorted (map row_due_date ?rows)"
    by (rule sorted_sort_key)
  have "db_getOverdueTodos now db = Inr (map (\<lambda>r. projr (rowToTodo r)) ?rows)
      \<and> mset (map (\<lambda>r. projr (rowToTodo r)) ?rows)
          = mset (filter (\<lambda>t. completed t = Some False
                                        \<and> (\<exists>d. dueDate t = Val d \<and> d < now)) allTodos)
      \<and> sorted_wrt (\<lambda>a b. \<exists>x y. dueDate a = Val x \<and> dueDate b = Val y \<and> x \<le> y)
            (map (\<lambda>r. projr (rowToTodo r)) ?rows)"
    using overdue_result [OF assms, of now] sorted_by_due [OF r1 r2 r3] by simp
  then have first: "\<exists>ts. db_getOverdueTodos now db = Inr ts
           \<and> mset ts = mset (filter (\<lambda>t. completed t = Some False
                                        \<and> (\<exists>d. dueDate t = Val d \<and> d < now)) allTodos)
           \<and> sorted_wrt (\<lambda>a b. \<exists>x y. dueDate a = Val x \<and> dueDate b = Val y \<and> x \<le> y) ts"
    by (rule exI)
  have second: "\<forall>flt rs. db_getAllTodos flt db = Inr rs
             \<longrightarrow> sorted_wrt (\<lambda>a b. createdAt b \<le> createdAt a) rs"
    using sorted_created_desc by simp
  from first second show ?thesis
    by (rule conjI)
qed


text \<open>On a store of four rows with due dates in that form, two of them overdue on 1 July 2024.\<close>

lemma overdue_by_text_example:
  "(\<exists>ts. db_getOverdueTodos ''2024-07-01T00:00:00.000Z'' sampleDb = Inr ts
      \<and> mset ts = mset (filter (\<lambda>t. completed t = Some False
             \<and> (\<exists>d. dueDate t = Val d \<and> d < ''2024-07-01T00:00:00.000Z''))
           [tripTodo, exerciseTodo, reviewTodo, sampleTodo])
      \<and> sorted_wrt (\<lambda>a b. \<exists>x y. dueDate a = Val x \<and> dueDate b = Val y \<and> x \<le> y) ts)
   \<and> sorted_wrt (\<lambda>a b. createdAt b \<le> createdAt a) [tripTodo, exerciseTodo, reviewTodo, sampleTodo]
   \<and> db_getOverdueTodos ''2024-07-01T00:00:00.000Z'' sampleDb = Inr [reviewTodo, sampleTodo]"
proof -
  have a: "db_getAllTodos None sampleDb = Inr [tripTodo, exerciseTodo, reviewTodo, sampleTodo]"
    using sampleDb_all by (simp add: svc_getAllTodos_def)
  have b: "db_getOverdueTodos ''2024-07-01T00:00:00.000Z'' sampleDb = Inr [reviewTodo, sampleTodo]"
    by code_simp
  from overdue_by_text [OF sampleDb_all, of "''2024-07-01T00:00:00.000Z''"] a b
  show ?thesis
    by blast
qed

lemma fold_increment:
  "acc k = Some (Num n) \<Longrightarrow>
   fold (\<lambda>todo acc. increment acc (priorityKey todo)) ts acc k
     = Some (Num (n + int (length (filter (\<lambda>t. priorityKey t = k) ts))))"
proof (induction ts arbitrary: acc n)
  case Nil
  then show ?case by simp
next
  case (Cons t ts)
  show ?case
  proof (cases "priorityKey t = k")
    case True
    with Cons.prems have "increment acc (priorityKey t) k = Some (Num (n + 1))"
      by (simp add: increment_def)
    with Cons.IH [of "increment acc (priorityKey t)" "n + 1"] True show ?thesis by simp
  next
    case False
    with Cons.prems have "increment acc (priorityKey t) k = Some (Num n)"
      by (simp add: increment_def)
    with Cons.IH [of "increment acc (priorityKey t)" n] False show ?thesis by simp
  qed
qed

lemma priorityKey_eq:
  "k \<noteq> ''undefined'' \<Longrightarrow> k \<noteq> ''null'' \<Longrightarrow> (priorityKey t = k) = (priority t = Val k)"
  by (auto simp: priorityKey_def split: js.splits)

lemma count_by_priority:
  assumes "k = ''low'' \<or> k = ''medium'' \<or> k = ''high''"
  shows "fold (\<lambda>todo acc. increment acc (priorityKey todo)) ts initialCounts k
     = Some (Num (int (length (filter (\<lambda>t. priority t = Val k) ts))))"
proof -
  from assms have k: "k \<noteq> ''undefined''" "k \<noteq> ''null''" by auto
  from assms have "initialCounts k = Some (Num 0)"
    by (auto simp: initialCounts_def)
  with fold_increment [of initialCounts k 0 ts] show ?thesis
    by (simp add: priorityKey_eq [OF k])
qed

text \<open>
  What \<open>getStats\<close> computes: the number of records as \<open>total\<close>, the number of
  completed records as \<open>completed\<close>, \<open>pending = total - completed\<close>, as \<open>overdue\<close>
  the number of pending records whose due date text is less than the text \<open>now\<close> (what
  the overdue query returns), and under each of the keys \<open>low\<close>, \<open>medium\<close> and
  \<open>high\<close> of \<open>byPriority\<close> the number of records of that priority (a number also when
  it is zero).
\<close>

lemma stats_by_text:
  assumes "svc_getAllTodos None db = Inr allTodos"
  shows "\<exists>st. svc_getStats now db = Inr st
       \<and> s_total st = int (length allTodos)
       \<and> s_completed st = int (length (filter (\<lambda>t. completed t = Some True) allTodos))
       \<and> s_pending st = s_total st - s_completed st
       \<and> s_overdue st = int (length (filter (\<lambda>t. completed t = Some False
                                               \<and> (\<exists>d. dueDate t = Val d \<and> d < now)) allTodos))
       \<and> s_byPriority st ''low''
            = Some (Num (int (length (filter (\<lambda>t. priority t = Val ''low'') allTodos))))
       \<and> s_byPriority st ''medium''
            = Some (Num (int (length (filter (\<lambda>t. priority t = Val ''medium'') allTodos))))
       \<and> s_byPriority st ''high''
            = Some (Num (int (length (filter (\<lambda>t. priority t = Val ''high'') allTodos))))"
proof -
  let ?ov = "map (\<lambda>r. projr (rowToTodo r)) (sort_key row_due_date (filter (overdueRow now) db))"
  let ?P = "\<lambda>t. completed t = Some False \<and> (\<exists>d. dueDate t = Val d \<and> d < now)"
  let ?st = "\<lparr>s_total = int (length allTodos),
             s_completed = int (length (filter (\<lambda>todo. completed todo = Some True) allTodos)),
             s_pending = int (length allTodos)
                 - int (length (filter (\<lambda>todo. completed todo = Some True) allTodos)),
             s_overdue = int (length ?ov),
             s_byPriority = fold (\<lambda>todo acc. increment acc (priorityKey todo)) allTodos initialCounts\<rparr>"
  have ov: "db_getOverdueTodos now db = Inr ?ov"
    by (rule overdue_result(1) [OF assms])
  have "size (mset ?ov) = size (mset (filter ?P allTodos))"
    by (simp only: overdue_result(2) [OF assms])
  then have len: "length ?ov = length (filter ?P allTodos)"
    by (simp only: size_mset)
  have st: "svc_getStats now db = Inr ?st"
    by (simp add: svc_getStats_def svc_getOverdueTodos_def assms ov Let_def)
  have "s_total ?st = int (length allTodos)
       \<and> s_completed ?st = int (length (filter (\<lambda>t. completed t = Some True) allTodos))
       \<and> s_pending ?st = s_total ?st - s_completed ?st
       \<and> s_overdue ?st = int (length (filter ?P allTodos))
       \<and> s_byPriority ?st ''low''
            = Some (Num (int (length (filter (\<lambda>t. priority t = Val ''low'') allTodos))))
       \<and> s_byPriority ?st ''medium''
            = Some (Num (int (length (filter (\<lambda>t. priority t = Val ''medium'') allTodos))))
       \<and> s_byPriority ?st ''high''
            = Some (Num (int (length (filter (\<lambda>t. priority t = Val ''high'') allTodos))))"
    by (simp add: len [simplified] count_by_priority)
  with st show ?thesis
    by blast
qed

text \<open>On the store of four rows, and on the empty store, where every count is zero.\<close>

lemma stats_by_text_example:
  "(\<exists>st. svc_getStats ''2024-07-01T00:00:00.000Z'' sampleDb = Inr st
      \<and> s_total st = 4 \<and> s_completed st = 1 \<and> s_pending st = 3 \<and> s_overdue st = 2
      \<and> s_byPriority st ''low'' = Some (Num 2)
      \<and> s_byPriority st ''medium'' = Some (Num 1)
      \<and> s_byPriority st ''high'' = Some (Num 1))
   \<and> (\<exists>st. svc_getStats ''2024-07-01T00:00:00.000Z'' [] = Inr st
      \<and> s_total st = 0 \<and> s_completed st = 0 \<and> s_pending st = 0 \<and> s_overdue st = 0
      \<and> s_byPriority st ''low'' = Some (Num 0)
      \<and> s_byPriority st ''medium'' = Some (Num 0)
      \<and> s_byPriority st ''high'' = Some (Num 0))"
proof -
  have ds: "''2024-06-20T09:00:00.000Z'' < ''2024-07-01T00:00:00.000Z''"
    "''2024-06-27T10:00:00.000Z'' < ''2024-07-01T00:00:00.000Z''"
    by simp_all
  from stats_by_text [OF sampleDb_all, of "''2024-07-01T00:00:00.000Z''"]
  have one: "\<exists>st. svc_getStats ''2024-07-01T00:00:00.000Z'' sampleDb = Inr st
      \<and> s_total st = 4 \<and> s_completed st = 1 \<and> s_pending st = 3 \<and> s_overdue st = 2
      \<and> s_byPriority st ''low'' = Some (Num 2)
      \<and> s_byPriority st ''medium'' = Some (Num 1)
      \<and> s_byPriority st ''high'' = Some (Num 1)"
    by (auto simp: tripTodo_def exerciseTodo_def reviewTodo_def sampleTodo_def ds)
  from stats_by_text [OF empty_all, of "''2024-07-01T00:00:00.000Z''"]
  have two: "\<exists>st. svc_getStats ''2024-07-01T00:00:00.000Z'' [] = Inr st
      \<and> s_total st = 0 \<and> s_completed st = 0 \<and> s_pending st = 0 \<and> s_overdue st = 0
      \<and> s_byPriority st ''low'' = Some (Num 0)
      \<and> s_byPriority st ''medium'' = Some (Num 0)
      \<and> s_byPriority st ''high'' = Some (Num 0)"
    by auto
  from one two show ?thesis
    by (rule conjI)
qed

lemma includes_sublist: "includes_str h n = sublist n h"
  by (induction h) (simp_all add: sublist_Cons_right)

lemma lowerChar_whiteSpace: "isWhiteSpace (lowerChar c) = isWhiteSpace c"
proof -
  have "of_char c < (256::nat)" by simp
  then show ?thesis
    by (auto simp: isWhiteSpace_def lowerChar_def charCode_def)
qed

lemma dropWhile_lower:
  "dropWhile isWhiteSpace (map lowerChar s) = map lowerChar (dropWhile isWhiteSpace s)"
  by (induction s) (simp_all add: lowerChar_whiteSpace)

lemma trim_toLowerCase: "trim (toLowerCase q) = toLowerCase (trim q)"
  by (simp add: trim_def toLowerCase_def dropWhile_lower rev_map)

lemma filterTodos_total:
  "\<forall>t\<in>set ts. p t = Inr (P t) \<Longrightarrow> filterTodos p ts = Inr (filter P ts)"
  by (induction ts) simp_all

lemma searchMatch_row:
  assumes "rowToTodo r = Inr t"
  shows "searchMatch q t =
     Inr ((\<exists>ti. title t = Some ti \<and> sublist q (toLowerCase ti))
          \<or> (\<exists>d. description t = Val d \<and> sublist q (toLowerCase d))
          \<or> (\<exists>ts tag. tags t = Some ts \<and> tag \<in> set ts \<and> sublist q (toLowerCase tag)))"
proof -
  from todo_of_row(8) [OF assms] obtain ts where ts: "tags t = Some ts" by auto
  show ?thesis
    using todo_of_row(2) [OF assms] ts
    by (cases "description t") (auto simp: searchMatch_def includes_sublist list_ex_iff)
qed

text \<open>
  C4: a query that is empty or white space only returns the full record set; any other
  query returns exactly the records for which the trimmed query in lower case is a
  substring of the title in lower case, or of the description in lower case when there is
  one, or of some tag in lower case.
\<close>

theorem search_semantics:
  assumes "svc_getAllTodos None db = Inr allTodos"
  shows "svc_searchTodos q db =
     Inr (if (\<forall>c\<in>set q. isWhiteSpace c) then allTodos
          else filter (\<lambda>t.
                 (\<exists>ti. title t = Some ti \<and> sublist (toLowerCase (trim q)) (toLowerCase ti))
                 \<or> (\<exists>d. description t = Val d \<and> sublist (toLowerCase (trim q)) (toLowerCase d))
                 \<or> (\<exists>ts tag. tags t = Some ts \<and> tag \<in> set ts
                       \<and> sublist (toLowerCase (trim q)) (toLowerCase tag))) allTodos)"
proof (cases "\<forall>c\<in>set q. isWhiteSpace c")
  case True
  then have "trim q = []" by (simp add: trim_Nil_iff)
  with True assms show ?thesis
    by (simp add: svc_searchTodos_def)
next
  case False
  then have nb: "trim q \<noteq> []" by (simp add: trim_Nil_iff)
  note rd = getAll_readable(1) [OF assms]
  note al = getAll_readable(2) [OF assms]
  let ?P = "\<lambda>t. (\<exists>ti. title t = Some ti \<and> sublist (toLowerCase (trim q)) (toLowerCase ti))
                 \<or> (\<exists>d. description t = Val d \<and> sublist (toLowerCase (trim q)) (toLowerCase d))
                 \<or> (\<exists>ts tag. tags t = Some ts \<and> tag \<in> set ts
                       \<and> sublist (toLowerCase (trim q)) (toLowerCase tag))"
  have "\<forall>t\<in>set allTodos. searchMatch (toLowerCase (trim q)) t = Inr (?P t)"
  proof
    fix t assume "t \<in> set allTodos"
    then obtain r where r: "r \<in> set db" and t: "t = projr (rowToTodo r)"
      unfolding al by auto
    from r rd obtain t' where t': "rowToTodo r = Inr t'" by auto
    with t have "rowToTodo r = Inr t" by simp
    then show "searchMatch (toLowerCase (trim q)) t = Inr (?P t)"
      by (rule searchMatch_row)
  qed
  then have "filterTodos (searchMatch (toLowerCase (trim q))) allTodos = Inr (filter ?P allTodos)"
    by (rule filterTodos_total)
  with nb assms have "svc_searchTodos q db = Inr (filter ?P allTodos)"
    by (simp add: svc_searchTodos_def trim_toLowerCase)
  then show ?thesis
    by (simp only: False if_False)
qed

text \<open>C4 on the store of four rows: a query in upper case with spaces around it, and a blank query.\<close>

theorem search_semantics_witness:
  "svc_searchTodos '' WORK '' sampleDb = Inr [exerciseTodo, reviewTodo, sampleTodo]
   \<and> svc_searchTodos ''   '' sampleDb = Inr [tripTodo, exerciseTodo, reviewTodo, sampleTodo]"
proof -
  have q: "toLowerCase (trim '' WORK '') = ''work''"
    by code_simp
  have w: "\<not> isWhiteSpace CHR ''W''"
    by (simp add: isWhiteSpace_def charCode_def)
  have s: "sublist ''work'' ''gym at work''" "sublist ''work'' ''work''"
    "\<not> sublist ''work'' ''health''" "\<not> sublist ''work'' ''buy milk''"
    "\<not> sublist ''work'' ''2 litres''" "\<not> sublist ''work'' ''plan trip''"
    "\<not> sublist ''work'' ''personal''" "\<not> sublist ''work'' ''exercise''"
    "\<not> sublist ''work'' ''review mcp documentation''"
    by code_simp+
  have l: "toLowerCase ''Gym at work'' = ''gym at work''" "toLowerCase ''Work'' = ''work''"
    "toLowerCase ''work'' = ''work''" "toLowerCase ''health'' = ''health''"
    "toLowerCase ''Buy milk'' = ''buy milk''" "toLowerCase ''2 litres'' = ''2 litres''"
    "toLowerCase ''Plan trip'' = ''plan trip''" "toLowerCase ''personal'' = ''personal''"
    "toLowerCase ''Exercise'' = ''exercise''"
    "toLowerCase ''Review MCP documentation'' = ''review mcp documentation''"
    by code_simp+
  from search_semantics [OF sampleDb_all, of "'' WORK ''"]
  have one: "svc_searchTodos '' WORK '' sampleDb = Inr [exerciseTodo, reviewTodo, sampleTodo]"
    by (simp add: q w isWhiteSpace_space s l tripTodo_def exerciseTodo_def reviewTodo_def
        sampleTodo_def conj_disj_distribR ex_disj_distrib)
  from search_semantics [OF sampleDb_all, of "''   ''"]
  have two: "svc_searchTodos ''   '' sampleDb = Inr [tripTodo, exerciseTodo, reviewTodo, sampleTodo]"
    by (simp add: isWhiteSpace_space)
  from one two show ?thesis
    by (rule conjI)
qed

lemma set_setAdd: "set (setAdd x s) = insert x (set s)"
  by (auto simp: setAdd_def)

lemma distinct_setAdd: "distinct s \<Longrightarrow> distinct (setAdd x s)"
  by (simp add: setAdd_def)

lemma set_fold_setAdd: "set (fold setAdd ts acc) = set ts \<union> set acc"
  by (induction ts arbitrary: acc) (auto simp: set_setAdd)

lemma distinct_fold_setAdd: "distinct acc \<Longrightarrow> distinct (fold setAdd ts acc)"
  by (induction ts arbitrary: acc) (simp_all add: distinct_setAdd)

lemma addParsed_eq:
  "(case JSON_parse x of None \<Rightarrow> acc | Some ts \<Rightarrow> fold setAdd ts acc)
     = fold setAdd (case JSON_parse x of None \<Rightarrow> [] | Some ts \<Rightarrow> ts) acc"
  by (simp split: option.splits)

lemma set_fold_texts:
  "set (fold (\<lambda>text acc. case JSON_parse (if text = [] then ''[]'' else text) of
                            None \<Rightarrow> acc | Some ts \<Rightarrow> fold setAdd ts acc) texts acc)
     = set acc \<union> (\<Union>text\<in>set texts.
          set (case JSON_parse (if text = [] then ''[]'' else text) of None \<Rightarrow> [] | Some ts \<Rightarrow> ts))"
  by (induction texts arbitrary: acc) (auto simp: addParsed_eq set_fold_setAdd)

lemma distinct_fold_texts:
  "distinct acc \<Longrightarrow>
   distinct (fold (\<lambda>text acc. case JSON_parse (if text = [] then ''[]'' else text) of
                            None \<Rightarrow> acc | Some ts \<Rightarrow> fold setAdd ts acc) texts acc)"
  by (induction texts arbitrary: acc) (simp_all add: addParsed_eq distinct_fold_setAdd)

text \<open>
  C8: tag enumeration returns exactly the tags that occur in some record (two tags that
  differ in case are two tags), each once, in ascending order of texts.
\<close>

theorem all_tags:
  assumes "svc_getAllTodos None db = Inr allTodos"
  shows "set (db_getAllTags db) = {tag. \<exists>t ts. t \<in> set allTodos \<and> tags t = Some ts \<and> tag \<in> set ts}
       \<and> distinct (db_getAllTags db)
       \<and> sorted (db_getAllTags db)"
proof -
  note rd = getAll_readable(1) [OF assms]
  note al = getAll_readable(2) [OF assms]
  define parsed where "parsed = (\<lambda>text. case JSON_parse (if text = [] then ''[]'' else text) of
                           None \<Rightarrow> [] | Some ts \<Rightarrow> ts)"
  define column where "column = (\<lambda>r::Row. case row_tags r of None \<Rightarrow> ''[]'' | Some text \<Rightarrow> text)"
  have pe: "parsed ''[]'' = []"
    by (simp add: parsed_def JSON_parse_empty)
  have tg: "tags (projr (rowToTodo r)) = Some (parsed (column r))" if "r \<in> set db" for r
  proof -
    from that rd obtain t where t: "rowToTodo r = Inr t" by auto
    from todo_of_row(7,8) [OF t] t show ?thesis
      by (cases "row_tags r") (auto simp: parsed_def column_def)
  qed
  have sa: "set allTodos = (\<lambda>r. projr (rowToTodo r)) ` set db"
    unfolding al by simp
  have texts: "set (remdups (filter (\<lambda>text. text \<noteq> ''[]'') (List.map_filter row_tags db)))
      = {text. text \<noteq> ''[]'' \<and> (\<exists>r\<in>set db. row_tags r = Some text)}"
    by (induction db) (auto split: option.splits)
  have "set (db_getAllTags db)
      = (\<Union>text\<in>set (remdups (filter (\<lambda>text. text \<noteq> ''[]'') (List.map_filter row_tags db))).
           set (parsed text))"
    unfolding db_getAllTags_def Let_def set_sort set_fold_texts parsed_def by simp
  also have "\<dots> = (\<Union>text\<in>{text. text \<noteq> ''[]'' \<and> (\<exists>r\<in>set db. row_tags r = Some text)}.
           set (parsed text))"
    by (simp only: texts)
  also have "\<dots> = (\<Union>r\<in>set db. set (parsed (column r)))"
  proof (rule set_eqI, rule iffI)
    fix x assume "x \<in> (\<Union>text\<in>{text. text \<noteq> ''[]'' \<and> (\<exists>r\<in>set db. row_tags r = Some text)}.
           set (parsed text))"
    then obtain tx r where "r \<in> set db" and "row_tags r = Some tx" and "x \<in> set (parsed tx)"
      by blast
    then have "r \<in> set db" and "x \<in> set (parsed (column r))"
      by (simp_all add: column_def)
    then show "x \<in> (\<Union>r\<in>set db. set (parsed (column r)))"
      by blast
  next
    fix x assume "x \<in> (\<Union>r\<in>set db. set (parsed (column r)))"
    then obtain r where r: "r \<in> set db" and x: "x \<in> set (parsed (column r))"
      by blast
    have ne: "column r \<noteq> ''[]''"
    proof
      assume "column r = ''[]''"
      with x pe show False by simp
    qed
    then obtain tx where tx: "row_tags r = Some tx"
      by (cases "row_tags r") (simp_all add: column_def)
    with ne have "tx \<noteq> ''[]''" and "column r = tx"
      by (simp_all add: column_def)
    with r x tx show "x \<in> (\<Union>text\<in>{text. text \<noteq> ''[]'' \<and> (\<exists>r\<in>set db. row_tags r = Some text)}.
           set (parsed text))"
      by auto
  qed
  also have "\<dots> = {tag. \<exists>t ts. t \<in> set allTodos \<and> tags t = Some ts \<and> tag \<in> set ts}"
  proof (rule set_eqI, rule iffI)
    fix tag assume "tag \<in> (\<Union>r\<in>set db. set (parsed (column r)))"
    then obtain r where r: "r \<in> set db" and m: "tag \<in> set (parsed (column r))" by blast
    from r have "projr (rowToTodo r) \<in> set allTodos"
      unfolding sa by (rule imageI)
    with tg [OF r] m show "tag \<in> {tag. \<exists>t ts. t \<in> set allTodos \<and> tags t = Some ts \<and> tag \<in> set ts}"
      by blast
  next
    fix tag assume "tag \<in> {tag. \<exists>t ts. t \<in> set allTodos \<and> tags t = Some ts \<and> tag \<in> set ts}"
    then obtain t ts where t: "t \<in> set allTodos" and ts: "tags t = Some ts" and m: "tag \<in> set ts"
      by blast
    from t obtain r where r: "r \<in> set db" and tr: "t = projr (rowToTodo r)"
      unfolding sa by blast
    from tg [OF r] tr ts have "ts = parsed (column r)" by simp
    with r m show "tag \<in> (\<Union>r\<in>set db. set (parsed (column r)))"
      by blast
  qed
  finally have one: "set (db_getAllTags db)
      = {tag. \<exists>t ts. t \<in> set allTodos \<and> tags t = Some ts \<and> tag \<in> set ts}" .
  have two: "distinct (db_getAllTags db)"
    unfolding db_getAllTags_def Let_def distinct_sort by (rule distinct_fold_texts) simp
  have three: "sorted (db_getAllTags db)"
    unfolding db_getAllTags_def Let_def by (rule sorted_sort)
  from one two three show ?thesis
    by (intro conjI)
qed

lemma twoRows_all: "svc_getAllTodos None [sampleRow, reviewRow] = Inr [reviewTodo, sampleTodo]"
  by code_simp

text \<open>
  C8 on records with the tags \<open>Work\<close>, \<open>health\<close> and \<open>work\<close>: the result is the list
  \<open>Work\<close>, \<open>health\<close>, \<open>work\<close>.
\<close>

theorem all_tags_witness:
  "db_getAllTags [sampleRow, reviewRow] = [''Work'', ''health'', ''work'']
   \<and> set (db_getAllTags [sampleRow, reviewRow]) = {''Work'', ''health'', ''work''}
   \<and> distinct (db_getAllTags [sampleRow, reviewRow])
   \<and> sorted (db_getAllTags [sampleRow, reviewRow])"
proof -
  have a: "db_getAllTags [sampleRow, reviewRow] = [''Work'', ''health'', ''work'']"
    by code_simp
  have b: "{tag. \<exists>t ts. t \<in> set [reviewTodo, sampleTodo] \<and> tags t = Some ts \<and> tag \<in> set ts}
     = {''Work'', ''health'', ''work''}"
    by (rule set_eqI) (simp add: reviewTodo_def sampleTodo_def conj_disj_distribR ex_disj_distrib
        conj_disj_distribL disj_ac)
  from all_tags [OF twoRows_all] a b show ?thesis
    by simp
qed

section \<open>Create and update on well-formed stores\<close>

text \<open>
  The record fetched after a successful \<open>createTodo\<close> is the returned record with
  \<open>description\<close> and \<open>dueDate\<close> as they are read back from the row.
\<close>

lemma find_last_row:
  "\<not> list_ex (\<lambda>r. row_id r = i) db \<Longrightarrow> row_id row = i \<Longrightarrow>
   find (\<lambda>r. row_id r = i) (db @ [row]) = Some row"
  by (induction db) auto

lemma rowToTodo_bindTodo:
  assumes "bindTodo t = Inr row" and "completed t = Some b" and "priority t = Val p"
    and "tags t = Some ts"
  shows "rowToTodo row = Inr (t\<lparr>description := stored (description t), dueDate := stored (dueDate t)\<rparr>)"
proof -
  from assms(1) obtain ti where ti: "title t = Some ti"
    by (auto simp: bindTodo_def split: option.splits)
  from assms ti have row: "row = \<lparr>row_id = todo_id t, row_title = ti,
       row_description = orNull (description t),
       row_completed = (if b then 1 else 0), row_priority = Some p,
       row_due_date = orNull (dueDate t), row_tags = Some (JSON_stringify ts),
       row_created_at = createdAt t, row_updated_at = updatedAt t\<rparr>"
    by (auto simp: bindTodo_def)
  show ?thesis
    unfolding row rowToTodo_def
    by (simp add: JSON_stringify_nonempty JSON_roundtrip stored_def ti assms(2,3,4)
        split: option.splits)
qed

proposition create_then_get:
  assumes "svc_createTodo validDate input newId now db = (Inr t, db')"
  shows "db_getTodoById newId db'
           = Inr (Some (t\<lparr>description := stored (description t), dueDate := stored (dueDate t)\<rparr>))"
proof -
  from assms obtain inp where c: "db_createTodo inp newId now db = (Inr t, db')"
    by (auto simp: svc_createTodo_def split: option.splits if_splits)
  then obtain row p ts where row: "bindTodo t = Inr row" and db': "db' = db @ [row]"
    and fresh: "\<not> list_ex (\<lambda>r. row_id r = newId) db"
    and t: "todo_id t = newId" "completed t = Some False" "priority t = Val p" "tags t = Some ts"
    by (auto simp: db_createTodo_def Let_def split: sum.splits if_splits)
  from row t have "row_id row = newId"
    by (auto simp: bindTodo_def split: option.splits)
  from find_last_row [OF fresh this] have "find (\<lambda>r. row_id r = newId) db' = Some row"
    by (simp add: db')
  then show ?thesis
    using rowToTodo_bindTodo [OF row t(2,3,4)] by (simp add: db_getTodoById_def)
qed

text \<open>
  \<open>updateTodo(id, {})\<close> on an existing record of a well-formed store with distinct ids,
  whose \<open>tags\<close> column is not \<open>NULL\<close>, changes \<open>updatedAt\<close> and nothing else, in the
  returned record and in the store.
\<close>

lemma find_by_id:
  "distinct (map row_id db) \<Longrightarrow> r \<in> set db \<Longrightarrow> find (\<lambda>x. row_id x = row_id r) db = Some r"
  by (induction db) (auto simp: rev_image_eqI)

lemma same_id_same_row:
  "distinct (map row_id db) \<Longrightarrow> r \<in> set db \<Longrightarrow> x \<in> set db \<Longrightarrow> row_id x = row_id r \<Longrightarrow> x = r"
  by (auto simp: distinct_map dest: inj_onD)

lemma bindTodo_rowToTodo:
  assumes "wellFormed r" and "rowToTodo r = Inr existing" and "row_tags r = Some text"
  shows "bindTodo (existing\<lparr>updatedAt := now\<rparr>) = Inr (r\<lparr>row_updated_at := now\<rparr>)"
proof -
  from wellFormed_tags [OF assms(1,3)] obtain ts where ts: "text = JSON_stringify ts"
    "JSON_parse text = Some ts" "text \<noteq> []" by blast
  from assms(1) have d: "row_description r \<noteq> Some []" "row_due_date r \<noteq> Some []"
    and c: "row_completed r = 0 \<or> row_completed r = 1"
    by (simp_all add: wellFormed_def)
  have o1: "orNull (case row_description r of None \<Rightarrow> Null | Some d \<Rightarrow> Val d) = row_description r"
    using d(1) by (simp add: orNull_def split: option.splits)
  have o2: "orNull (case row_due_date r of None \<Rightarrow> Null | Some d \<Rightarrow> Val d) = row_due_date r"
    using d(2) by (simp add: orNull_def split: option.splits)
  have o3: "(case (case row_priority r of None \<Rightarrow> Null | Some p \<Rightarrow> Val p) of
              Val p \<Rightarrow> Some p | _ \<Rightarrow> None) = row_priority r"
    by (simp split: option.splits)
  have c': "(if row_completed r \<noteq> 0 then 1 else 0) = row_completed r"
    using c by auto
  from assms(2,3) ts have e: "existing = \<lparr>todo_id = row_id r, title = Some (row_title r),
       description = (case row_description r of None \<Rightarrow> Null | Some d \<Rightarrow> Val d),
       completed = Some (row_completed r \<noteq> 0),
       priority = (case row_priority r of None \<Rightarrow> Null | Some p \<Rightarrow> Val p),
       dueDate = (case row_due_date r of None \<Rightarrow> Null | Some d \<Rightarrow> Val d),
       tags = Some ts, createdAt = row_created_at r, updatedAt = row_updated_at r\<rparr>"
    by (simp add: rowToTodo_def)
  show ?thesis
    unfolding e bindTodo_def by (simp add: o1 o2 o3 c' ts(1) [symmetric] assms(3) [symmetric])
qed

proposition update_nothing_supplied:
  assumes "list_all wellFormed db" and "distinct (map row_id db)" and "r \<in> set db"
    and "\<exists>c\<in>set (row_id r). \<not> isWhiteSpace c" and "row_tags r = Some text"
  shows "\<exists>existing. db_getTodoById (row_id r) db = Inr (Some existing)
     \<and> svc_updateTodo validDate (row_id r) noUpdate now db
         = (Inr (existing\<lparr>updatedAt := now\<rparr>),
            map (\<lambda>x. if row_id x = row_id r then x\<lparr>row_updated_at := now\<rparr> else x) db)"
proof -
  from assms(1,3) have wf: "wellFormed r" by (simp add: list_all_iff)
  from wellFormed_readable [OF wf] obtain existing where ex: "rowToTodo r = Inr existing" by blast
  have g: "db_getTodoById (row_id r) db = Inr (Some existing)"
    by (simp add: db_getTodoById_def find_by_id [OF assms(2,3)] ex)
  have nb: "trim (row_id r) \<noteq> []"
    using assms(4) by (simp add: trim_Nil_iff)
  have n: "normalizeUpdate noUpdate = noUpdate"
    by (simp add: normalizeUpdate_def noUpdate_def)
  have v: "ui_title noUpdate = Absent" "ui_dueDate noUpdate = Absent" "ui_priority noUpdate = Absent"
    by (simp_all add: noUpdate_def)
  have u: "\<lparr>todo_id = todo_id existing,
            title = spreadOpt (title existing) (ui_title noUpdate),
            description = spreadJs (description existing) (ui_description noUpdate),
            completed = spreadOpt (completed existing) (ui_completed noUpdate),
            priority = spreadJs (priority existing) (ui_priority noUpdate),
            dueDate = spreadJs (dueDate existing) (ui_dueDate noUpdate),
            tags = spreadOpt (tags existing) (ui_tags noUpdate),
            createdAt = createdAt existing, updatedAt = now\<rparr> = existing\<lparr>updatedAt := now\<rparr>"
    by (simp add: noUpdate_def spreadOpt_def spreadJs_def)
  have m: "runUpdate (row_id r) (r\<lparr>row_updated_at := now\<rparr>) db
         = map (\<lambda>x. if row_id x = row_id r then x\<lparr>row_updated_at := now\<rparr> else x) db"
    unfolding runUpdate_def
  proof (rule map_cong [OF refl])
    fix x assume x: "x \<in> set db"
    show "(if row_id x = row_id r
           then x\<lparr>row_title := row_title (r\<lparr>row_updated_at := now\<rparr>),
                  row_description := row_description (r\<lparr>row_updated_at := now\<rparr>),
                  row_completed := row_completed (r\<lparr>row_updated_at := now\<rparr>),
                  row_priority := row_priority (r\<lparr>row_updated_at := now\<rparr>),
                  row_due_date := row_due_date (r\<lparr>row_updated_at := now\<rparr>),
                  row_tags := row_tags (r\<lparr>row_updated_at := now\<rparr>),
                  row_updated_at := row_updated_at (r\<lparr>row_updated_at := now\<rparr>)\<rparr>
           else x)
        = (if row_id x = row_id r then x\<lparr>row_updated_at := now\<rparr> else x)"
    proof (cases "row_id x = row_id r")
      case True
      from same_id_same_row [OF assms(2,3) x True] show ?thesis by simp
    next
      case False
      then show ?thesis by simp
    qed
  qed
  have "db_updateTodo (row_id r) noUpdate now db
      = (Inr (Some (existing\<lparr>updatedAt := now\<rparr>)),
         map (\<lambda>x. if row_id x = row_id r then x\<lparr>row_updated_at := now\<rparr> else x) db)"
    unfolding db_updateTodo_def
    by (simp add: g u Let_def bindTodo_rowToTodo [OF wf ex assms(5)] m)
  then have "svc_updateTodo validDate (row_id r) noUpdate now db
         = (Inr (existing\<lparr>updatedAt := now\<rparr>),
            map (\<lambda>x. if row_id x = row_id r then x\<lparr>row_updated_at := now\<rparr> else x) db)"
    unfolding svc_updateTodo_def by (simp add: nb g n v)
  with g show ?thesis
    by blast
qed

section \<open>Where the code departs from the specification\<close>

text \<open>
  C1 states that \<open>getAllTodos({tag: t})\<close> returns a record exactly when \<open>t\<close> is one of
  its tags. The code evaluates \<open>tags LIKE '%"t"%'\<close> on the JSON text of the tags. On a
  store of two records created through the service, with the tags \<open>work\<close> and
  \<open>a"b\<close>, \<open>50%\<close>: the filter \<open>%\<close> returns both records, the filters \<open>w_rk\<close> and
  \<open>WORK\<close> return the first, none of which is a tag of a record; the filter \<open>a"b\<close>
  returns nothing although it is a tag of the second.
\<close>

theorem tag_filter_not_membership:
  "svc_createTodo (\<lambda>d. True) milkInput ''id-1'' ''2024-06-01T08:00:00.000Z'' [] = (Inr milkTodo, [milkRow])
   \<and> svc_createTodo (\<lambda>d. True) quoteInput ''id-2'' ''2024-06-02T08:00:00.000Z'' [milkRow]
        = (Inr quoteTodo, [milkRow, quoteRow])
   \<and> svc_getAllTodos None [milkRow, quoteRow]
        = Inr [quoteTodo, milkTodo\<lparr>description := Null, dueDate := Null\<rparr>]
   \<and> svc_getAllTodos (tagFilter ''%'') [milkRow, quoteRow]
        = Inr [quoteTodo, milkTodo\<lparr>description := Null, dueDate := Null\<rparr>]
   \<and> svc_getAllTodos (tagFilter ''w_rk'') [milkRow, quoteRow]
        = Inr [milkTodo\<lparr>description := Null, dueDate := Null\<rparr>]
   \<and> svc_getAllTodos (tagFilter ''WORK'') [milkRow, quoteRow]
        = Inr [milkTodo\<lparr>description := Null, dueDate := Null\<rparr>]
   \<and> svc_getAllTodos (tagFilter ''a\"b'') [milkRow, quoteRow] = Inr []
   \<and> svc_getAllTodos (tagFilter ''50%'') [milkRow, quoteRow] = Inr [quoteTodo]"
  by code_simp

text \<open>
  C2 states that \<open>updateTodo\<close> leaves every field that is not supplied as it was, also
  when the key is present with the value \<open>undefined\<close>, as the tool handler passes it.
  On a completed record with a description and a due date, an update that supplies
  \<open>title\<close>, \<open>priority\<close> and \<open>tags\<close> and passes the other keys as \<open>undefined\<close>
  stores no description, no due date and \<open>completed = 0\<close>, and returns the three
  fields as \<open>undefined\<close>. An update that supplies the title alone also stores \<open>NULL\<close>
  for \<open>priority\<close> and \<open>tags\<close>. With all six keys \<open>undefined\<close> the title bound is
  \<open>NULL\<close>, the statement fails on \<open>NOT NULL\<close> and the store is as it was. With no key at
  all (\<open>{}\<close>) only \<open>updatedAt\<close> changes.
\<close>

theorem update_undefined_keys_overwrite:
  "svc_getTodoById ''c3'' [exerciseRow] = Inr (Some exerciseTodo)
   \<and> svc_updateTodo (\<lambda>d. True) ''c3'' adapterUpdate ''2024-07-01T00:00:00.000Z'' [exerciseRow]
       = (Inr \<lparr>todo_id = ''c3'', title = Some ''Exercise daily'', description = Undefined,
               completed = None, priority = Val ''high'', dueDate = Undefined,
               tags = Some [''health''], createdAt = ''2024-06-03T08:00:00.000Z'',
               updatedAt = ''2024-07-01T00:00:00.000Z''\<rparr>,
          [\<lparr>row_id = ''c3'', row_title = ''Exercise daily'', row_description = None,
            row_completed = 0, row_priority = Some ''high'', row_due_date = None,
            row_tags = Some ''[\"health\"]'', row_created_at = ''2024-06-03T08:00:00.000Z'',
            row_updated_at = ''2024-07-01T00:00:00.000Z''\<rparr>])
   \<and> svc_updateTodo (\<lambda>d. True) ''c3'' adapterTitleUpdate ''2024-07-01T00:00:00.000Z'' [exerciseRow]
       = (Inr \<lparr>todo_id = ''c3'', title = Some ''Exercise daily'', description = Undefined,
               completed = None, priority = Undefined, dueDate = Undefined,
               tags = None, createdAt = ''2024-06-03T08:00:00.000Z'',
               updatedAt = ''2024-07-01T00:00:00.000Z''\<rparr>,
          [\<lparr>row_id = ''c3'', row_title = ''Exercise daily'', row_description = None,
            row_completed = 0, row_priority = None, row_due_date = None,
            row_tags = None, row_created_at = ''2024-06-03T08:00:00.000Z'',
            row_updated_at = ''2024-07-01T00:00:00.000Z''\<rparr>])
   \<and> svc_updateTodo (\<lambda>d. True) ''c3'' adapterEmptyUpdate ''2024-07-01T00:00:00.000Z'' [exerciseRow]
       = (Inl (SqliteError ''NOT NULL constraint failed: todos.title''), [exerciseRow])
   \<and> svc_updateTodo (\<lambda>d. True) ''c3'' noUpdate ''2024-07-01T00:00:00.000Z'' [exerciseRow]
       = (Inr (exerciseTodo\<lparr>updatedAt := ''2024-07-01T00:00:00.000Z''\<rparr>),
          [exerciseRow\<lparr>row_updated_at := ''2024-07-01T00:00:00.000Z''\<rparr>])"
  by code_simp

text \<open>
  C3 states that the record fetched right after \<open>createTodo\<close> equals the record
  \<open>createTodo\<close> returned. For an input with an empty description and no due date the
  returned record has \<open>description = ""\<close> and \<open>dueDate = undefined\<close>; the row stores
  \<open>NULL\<close> for both, and the fetched record has \<open>null\<close> for both.
\<close>

theorem create_then_get_differs:
  "svc_createTodo (\<lambda>d. True) milkInput ''id-1'' ''2024-06-01T08:00:00.000Z'' [] = (Inr milkTodo, [milkRow])
   \<and> svc_getTodoById ''id-1'' [milkRow] = Inr (Some (milkTodo\<lparr>description := Null, dueDate := Null\<rparr>))
   \<and> description milkTodo = Val ''''
   \<and> dueDate milkTodo = Undefined
   \<and> milkTodo\<lparr>description := Null, dueDate := Null\<rparr> \<noteq> milkTodo"
  by code_simp

text \<open>
  C5 states that the overdue query returns exactly the pending records whose due date is
  strictly earlier than \<open>now\<close>. \<open>createTodo\<close> accepts every due date the date parser
  accepts and stores its text as given; the query compares that text with the ISO text of
  \<open>now\<close>. At \<open>now\<close> = 2024-07-01T00:00:00.000Z, of two pending records created through
  the service, the one due 2024-07-01T01:00:00+02:00 (an hour before \<open>now\<close>) is not
  returned, and the one due 2024-06-30T23:00:00-05:00 (four hours after \<open>now\<close>) is.
\<close>

theorem overdue_compares_texts:
  "svc_createTodo (\<lambda>d. True) offsetInput ''id-3'' ''2024-06-01T08:00:00.000Z'' []
     = (Inr offsetTodo, [offsetRow])
   \<and> svc_createTodo (\<lambda>d. True) aheadInput ''id-4'' ''2024-06-02T08:00:00.000Z'' [offsetRow]
     = (Inr aheadTodo, [offsetRow, aheadRow])
   \<and> svc_getAllTodos None [offsetRow, aheadRow]
     = Inr [aheadTodo\<lparr>description := Null\<rparr>, offsetTodo\<lparr>description := Null\<rparr>]
   \<and> db_getOverdueTodos ''2024-07-01T00:00:00.000Z'' [offsetRow, aheadRow]
     = Inr [aheadTodo\<lparr>description := Null\<rparr>]"
  by code_simp

text \<open>
  C7 states that \<open>overdue\<close> in the statistics is the number of records that are overdue at
  the evaluation instant. \<open>getStats\<close> counts what the overdue query returns, so the
  comparison of texts shows here too: at \<open>now\<close> = 2024-07-01T00:00:00.000Z, on a store
  whose one record is pending and due 2024-07-01T01:00:00+02:00 (an hour before \<open>now\<close>),
  \<open>overdue\<close> is 0. The other counts are as C7 states them.
\<close>

lemma offsetRow_all: "svc_getAllTodos None [offsetRow] = Inr [offsetTodo\<lparr>description := Null\<rparr>]"
  by code_simp

theorem stats_overdue_compares_texts:
  "svc_createTodo (\<lambda>d. True) offsetInput ''id-3'' ''2024-06-01T08:00:00.000Z'' []
     = (Inr offsetTodo, [offsetRow])
   \<and> (\<exists>st. svc_getStats ''2024-07-01T00:00:00.000Z'' [offsetRow] = Inr st
         \<and> s_total st = 1 \<and> s_completed st = 0 \<and> s_pending st = 1 \<and> s_overdue st = 0
         \<and> s_byPriority st ''low'' = Some (Num 0)
         \<and> s_byPriority st ''medium'' = Some (Num 1)
         \<and> s_byPriority st ''high'' = Some (Num 0))"
proof -
  have c: "svc_createTodo (\<lambda>d. True) offsetInput ''id-3'' ''2024-06-01T08:00:00.000Z'' []
     = (Inr offsetTodo, [offsetRow])"
    by code_simp
  have d: "\<not> ''2024-07-01T01:00:00+02:00'' < ''2024-07-01T00:00:00.000Z''"
    by simp
  from stats_by_text [OF offsetRow_all, of "''2024-07-01T00:00:00.000Z''"]
  have "\<exists>st. svc_getStats ''2024-07-01T00:00:00.000Z'' [offsetRow] = Inr st
         \<and> s_total st = 1 \<and> s_completed st = 0 \<and> s_pending st = 1 \<and> s_overdue st = 0
         \<and> s_byPriority st ''low'' = Some (Num 0)
         \<and> s_byPriority st ''medium'' = Some (Num 1)
         \<and> s_byPriority st ''high'' = Some (Num 0)"
    by (auto simp: offsetTodo_def d)
  with c show ?thesis
    by (rule conjI)
qed

end
